theory Spec2Isabelle
  imports Main "HOL-Library.Word"
begin

unbundle bit_operations_syntax

section \<open>Machine types and shared constants\<close>

type_synonym u8 = "8 word"
type_synonym u16 = "16 word"
type_synonym u32 = "32 word"
type_synonym u64 = "64 word"

text \<open>Privilege levels as used by \<^verbatim>\<open>riscv_clic.c\<close> (the test file's
  \<^verbatim>\<open>enum INTATTR_MODE\<close> gives the same encoding).\<close>

abbreviation (input) PRV_U :: nat where "PRV_U \<equiv> 0"
abbreviation (input) PRV_S :: nat where "PRV_S \<equiv> 1"
abbreviation (input) PRV_RESERVED :: nat where "PRV_RESERVED \<equiv> 2"
abbreviation (input) PRV_M :: nat where "PRV_M \<equiv> 3"

text \<open>\<^verbatim>\<open>include/hw/intc/riscv_clic.h\<close>\<close>

abbreviation (input) CLIC_INTCTL_BASE :: nat where "CLIC_INTCTL_BASE \<equiv> 0x1000"
abbreviation (input) CLIC_IRQ_BITS :: nat where "CLIC_IRQ_BITS \<equiv> 12"
abbreviation (input) CLIC_IRQ_MASK :: nat where "CLIC_IRQ_MASK \<equiv> 0xfff"
abbreviation (input) CLIC_INTTRIG_START :: nat where "CLIC_INTTRIG_START \<equiv> 0x10"
abbreviation (input) CLIC_INTTRIG_END :: nat where "CLIC_INTTRIG_END \<equiv> 0x2f"
abbreviation (input) CLIC_INTTRIG_IRQN :: u32 where "CLIC_INTTRIG_IRQN \<equiv> 0x00001fff"
abbreviation (input) CLIC_INTTRIG_MASK :: u32 where "CLIC_INTTRIG_MASK \<equiv> 0xc0001fff"
abbreviation (input) CLIC_INTCFG_MASK :: nat where "CLIC_INTCFG_MASK \<equiv> 0x3ff"
abbreviation (input) CLIC_INTATTR_MODE :: u8 where "CLIC_INTATTR_MODE \<equiv> 0xc0"
abbreviation (input) CLIC_INTATTR_TRIG :: u8 where "CLIC_INTATTR_TRIG \<equiv> 0x06"
abbreviation (input) CLIC_INTATTR_SHV :: u8 where "CLIC_INTATTR_SHV \<equiv> 0x01"
abbreviation (input) CLIC_INTATTR_MASK :: u8 where "CLIC_INTATTR_MASK \<equiv> 0xc7"

text \<open>\<^verbatim>\<open>enum TRIG_TYPE\<close>\<close>

abbreviation (input) POSITIVE_LEVEL :: nat where "POSITIVE_LEVEL \<equiv> 0"
abbreviation (input) POSITIVE_EDGE :: nat where "POSITIVE_EDGE \<equiv> 1"
abbreviation (input) NEG_LEVEL :: nat where "NEG_LEVEL \<equiv> 2"
abbreviation (input) NEG_EDGE :: nat where "NEG_EDGE \<equiv> 3"

section \<open>The down-counting timer (\<^verbatim>\<open>hw/timer/thead_timer.c\<close>)\<close>

text \<open>
  \<^verbatim>\<open>thead_timer_state\<close>: four channels. The \<^verbatim>\<open>ptimer_state\<close> objects live in
  \<^verbatim>\<open>hw/ptimer.h\<close>, which is not modelled here, so their type is a parameter
  \<open>'p\<close> and \<^verbatim>\<open>ptimer_set_limit\<close> is passed to the model as a function.
\<close>

abbreviation (input) TIMER_CTRL_ENABLE :: u32 where "TIMER_CTRL_ENABLE \<equiv> 1"
abbreviation (input) TIMER_CTRL_MODE :: u32 where "TIMER_CTRL_MODE \<equiv> 2"
abbreviation (input) TIMER_CTRL_IE :: u32 where "TIMER_CTRL_IE \<equiv> 4"

record 'p thead_timer_state =
  timer :: "'p list"
  control :: "u32 list"
  limit :: "u32 list"
  freq :: "int list"
  int_level :: "int list"

text \<open>All five arrays of the C struct have four elements.\<close>

definition timer_arrays_ok :: "'p thead_timer_state \<Rightarrow> bool" where
  "timer_arrays_ok s =
     (length (timer s) = 4 \<and> length (control s) = 4 \<and> length (limit s) = 4 \<and>
      length (freq s) = 4 \<and> length (int_level s) = 4)"

text \<open>
  \<^verbatim>\<open>thead_timer_reload(s, reload, index)\<close>. The result is \<open>None\<close> where the C code
  would index one of the four-element arrays out of range.
\<close>

definition thead_timer_reload ::
  "('p \<Rightarrow> u64 \<Rightarrow> int \<Rightarrow> 'p) \<Rightarrow> 'p thead_timer_state \<Rightarrow> int \<Rightarrow> nat
     \<Rightarrow> 'p thead_timer_state option" where
  "thead_timer_reload ptimer_set_limit s reload index =
     (if 4 \<le> index \<or> \<not> timer_arrays_ok s then None
      else
        let lim = (if control s ! index AND TIMER_CTRL_MODE \<noteq> 0
                   then limit s ! index
                   else limit s ! index)
        in Some (s\<lparr>timer := (timer s)[index :=
                     ptimer_set_limit (timer s ! index) (ucast lim) reload]\<rparr>))"

text \<open>
  The simplified version named by the specification: the reload limit is always
  \<^verbatim>\<open>s->limit[index]\<close>, whatever the control register holds.
\<close>

definition thead_timer_reload_simplified ::
  "('p \<Rightarrow> u64 \<Rightarrow> int \<Rightarrow> 'p) \<Rightarrow> 'p thead_timer_state \<Rightarrow> int \<Rightarrow> nat
     \<Rightarrow> 'p thead_timer_state option" where
  "thead_timer_reload_simplified ptimer_set_limit s reload index =
     (if 4 \<le> index \<or> \<not> timer_arrays_ok s then None
      else Some (s\<lparr>timer := (timer s)[index :=
                     ptimer_set_limit (timer s ! index) (ucast (limit s ! index)) reload]\<rparr>))"

text \<open>Flipping the \<^verbatim>\<open>TIMER_CTRL_MODE\<close> bit of \<^verbatim>\<open>control[index]\<close>.\<close>

definition toggle_ctrl_mode :: "'p thead_timer_state \<Rightarrow> nat \<Rightarrow> 'p thead_timer_state" where
  "toggle_ctrl_mode s index =
     s\<lparr>control := (control s)[index := (control s ! index) XOR TIMER_CTRL_MODE]\<rparr>"

section \<open>The CLIC (\<^verbatim>\<open>hw/intc/riscv_clic.c\<close>): data model\<close>

text \<open>\<^verbatim>\<open>struct CLICActiveInterrupt\<close>: one entry of the sorted list of enabled interrupts.\<close>

record CLICActiveInterrupt =
  intcfg :: u16
  irq :: u16

text \<open>
  What the CLIC reads from the hart it serves: \<^verbatim>\<open>env->priv\<close> and the three
  interrupt-level fields of \<^verbatim>\<open>env->mintstatus\<close>, already extracted by
  \<^verbatim>\<open>get_field(env->mintstatus, MINTSTATUS_xIL)\<close> (the masks are defined in the CPU
  headers, which are not modelled here).
\<close>

record cpu_env =
  priv :: nat
  mintstatus_uil :: nat
  mintstatus_sil :: nat
  mintstatus_mil :: nat

text \<open>
  The surroundings of one CLIC call:
  \<^item> \<open>cpu\<close>: the result of \<^verbatim>\<open>cpu_by_arch_id(clic->hartid)\<close>, \<open>None\<close> for a NULL env
    (one CLIC serves one hart, so \<^verbatim>\<open>current_cpu\<close> is the same hart);
  \<^item> \<open>qtest_enabled\<close>: the value of \<^verbatim>\<open>qtest_enabled()\<close>;
  \<^item> \<open>clic_mode_shift\<close>, \<open>clic_level_shift\<close>: the macros
    \<^verbatim>\<open>RISCV_EXCP_CLIC_MODE_SHIFT\<close> and \<^verbatim>\<open>RISCV_EXCP_CLIC_LEVEL_SHIFT\<close>, whose values
    are defined in the CPU headers.
\<close>

record hart_ctx =
  cpu :: "cpu_env option"
  qtest_enabled :: bool
  clic_mode_shift :: nat
  clic_level_shift :: nat

text \<open>
  A call of \<^verbatim>\<open>qemu_set_irq(clic->cpu_irq, level)\<close>. Under qtest the level is
  \<^verbatim>\<open>qtest_encode_irq(irq, 1)\<close>, a function of the test framework; the call is
  recorded with its arguments.
\<close>

datatype irq_level = Level int | Qtest_encode_irq nat int

text \<open>
  \<^verbatim>\<open>struct RISCVCLICState\<close>. The per-interrupt arrays are lists of
  \<open>num_sources\<close> bytes. \<open>prv_s\<close> and \<open>prv_u\<close> say whether the view pointers are
  non-NULL. \<open>active_list\<close> holds the first \<^verbatim>\<open>active_count\<close> elements of the C array
  (\<^verbatim>\<open>active_count\<close> is its length; the C code never reads an element at or beyond
  \<^verbatim>\<open>active_count\<close> before writing it). \<open>cpu_irq\<close> is the log of the calls of
  \<^verbatim>\<open>qemu_set_irq\<close> on the outgoing line, oldest first.
\<close>

record RISCVCLICState =
  shv_enabled :: bool
  jump_table :: bool
  num_sources :: nat
  clic_size :: nat
  clicintctlbits :: nat
  prv_s :: bool
  prv_u :: bool
  version :: string
  nmbits :: u8
  mnlbits :: u8
  snlbits :: u8
  unlbits :: u8
  clicinttrig :: "u32 list"
  clicintip :: "u8 list"
  clicintie :: "u8 list"
  clicintattr :: "u8 list"
  clicintctl :: "u8 list"
  mintthresh :: u32
  sintthresh :: u32
  uintthresh :: u32
  exccode :: u32
  active_list :: "CLICActiveInterrupt list"
  cpu_irq :: "irq_level list"

text \<open>
  How a call can end without returning: a failed \<^verbatim>\<open>assert\<close>, the \<^verbatim>\<open>exit(1)\<close> of
  \<^verbatim>\<open>riscv_clic_check_visible\<close>, a read through a NULL \<^verbatim>\<open>env\<close>, or an array access
  out of range.
\<close>

datatype clic_error =
    Null_env
  | Assert_addr_lt_clic_size
  | Assert_addr_aligned
  | Exit_nmbits
  | Assert_prv_u
  | Assert_nmbits_le_2
  | Assert_bsearch_result
  | Out_of_bounds

type_synonym 'a result = "clic_error + 'a"

section \<open>CLIC: field decoding\<close>

text \<open>\<^verbatim>\<open>get_field(clic->clicintattr[irq], CLIC_INTATTR_TRIG)\<close>\<close>

definition riscv_clic_get_trigger_type :: "RISCVCLICState \<Rightarrow> nat \<Rightarrow> nat" where
  "riscv_clic_get_trigger_type clic i =
     unat (drop_bit 1 (clicintattr clic ! i AND CLIC_INTATTR_TRIG))"

definition riscv_clic_is_edge_triggered :: "RISCVCLICState \<Rightarrow> nat \<Rightarrow> bool" where
  "riscv_clic_is_edge_triggered clic i =
     (riscv_clic_get_trigger_type clic i AND 1 \<noteq> 0)"

definition riscv_clic_is_shv_interrupt :: "RISCVCLICState \<Rightarrow> nat \<Rightarrow> bool" where
  "riscv_clic_is_shv_interrupt clic i =
     (clicintattr clic ! i AND CLIC_INTATTR_SHV \<noteq> 0 \<and> shv_enabled clic)"

text \<open>\<^verbatim>\<open>get_field(intattr, CLIC_INTATTR_MODE)\<close>\<close>

definition intattr_mode :: "u8 \<Rightarrow> u8" where
  "intattr_mode intattr = drop_bit 6 (intattr AND CLIC_INTATTR_MODE)"

text \<open>
  \<^verbatim>\<open>riscv_clic_get_interrupt_level\<close>: the top \<open>nlbits\<close> bits of \<open>intctl\<close>, the rest read
  as ones. The two masks are computed in \<^verbatim>\<open>int\<close> and truncated to \<^verbatim>\<open>uint8_t\<close>.
  \<open>nlbits\<close> is at most 8: \<^verbatim>\<open>mnlbits\<close> is 8 by default and \<^verbatim>\<open>riscv_clic_write\<close> stores
  only values up to 8, so the shift \<^verbatim>\<open>8 - nlbits\<close> is never negative.

  \<^verbatim>\<open>riscv_clic_get_interrupt_priority\<close>: the next \<open>npbits\<close> bits in the same way. The
  source computes the masks first and then returns \<^verbatim>\<open>UINT8_MAX\<close> when
  \<^verbatim>\<open>npbits < 0\<close>; the masks are not used on that path, so the test comes first here.
\<close>

definition riscv_clic_get_interrupt_level :: "RISCVCLICState \<Rightarrow> u8 \<Rightarrow> u8" where
  "riscv_clic_get_interrupt_level clic intctl =
     (let nlbits = min (unat (mnlbits clic)) (clicintctlbits clic);
          mask_il = (of_nat (push_bit (8 - nlbits) (2 ^ nlbits - 1 :: nat)) :: u8);
          mask_padding = (of_nat (2 ^ (8 - nlbits) - 1 :: nat) :: u8)
      in (intctl AND mask_il) OR mask_padding)"

definition riscv_clic_get_interrupt_priority :: "RISCVCLICState \<Rightarrow> u8 \<Rightarrow> u8" where
  "riscv_clic_get_interrupt_priority clic intctl =
     (if clicintctlbits clic < unat (mnlbits clic) then 0xff
      else
        let npbits = clicintctlbits clic - unat (mnlbits clic);
            mask_priority = (of_nat (push_bit (8 - npbits) (2 ^ npbits - 1 :: nat)) :: u8);
            mask_padding = (of_nat (2 ^ (8 - npbits) - 1 :: nat) :: u8)
        in (intctl AND mask_priority) OR mask_padding)"

text \<open>\<^verbatim>\<open>riscv_clic_intcfg_decode\<close>: mode, level and priority of a sort key.\<close>

definition intcfg_mode :: "u16 \<Rightarrow> u8" where
  "intcfg_mode cfg = ucast (drop_bit 8 cfg)"

definition intcfg_level :: "RISCVCLICState \<Rightarrow> u16 \<Rightarrow> u8" where
  "intcfg_level clic cfg = riscv_clic_get_interrupt_level clic (ucast (cfg AND 0xff))"

definition intcfg_priority :: "RISCVCLICState \<Rightarrow> u16 \<Rightarrow> u8" where
  "intcfg_priority clic cfg = riscv_clic_get_interrupt_priority clic (ucast (cfg AND 0xff))"

section \<open>CLIC: arbitration\<close>

text \<open>The array \<^verbatim>\<open>il[4]\<close> of \<^verbatim>\<open>riscv_clic_next_interrupt\<close>.\<close>

definition il_thresholds :: "cpu_env \<Rightarrow> RISCVCLICState \<Rightarrow> nat list" where
  "il_thresholds env clic =
     [max (mintstatus_uil env) (unat (uintthresh clic AND 0xff)),
      max (mintstatus_sil env) (unat (sintthresh clic AND 0xff)),
      0,
      max (mintstatus_mil env) (unat (mintthresh clic AND 0xff))]"

text \<open>
  The value stored in \<^verbatim>\<open>clic->exccode\<close>:
  \<^verbatim>\<open>irq | mode << RISCV_EXCP_CLIC_MODE_SHIFT | level << RISCV_EXCP_CLIC_LEVEL_SHIFT\<close>.
\<close>

definition encode_exccode :: "hart_ctx \<Rightarrow> u16 \<Rightarrow> u8 \<Rightarrow> u8 \<Rightarrow> u32" where
  "encode_exccode ctx i mode level =
     ucast i OR push_bit (clic_mode_shift ctx) (ucast mode)
             OR push_bit (clic_level_shift ctx) (ucast level)"

text \<open>
  The body of the \<^verbatim>\<open>if (clic->clicintip[active->irq])\<close> branch: clear a vectored
  edge-triggered pending bit, then post the interrupt and return.
\<close>

definition post_interrupt ::
  "hart_ctx \<Rightarrow> RISCVCLICState \<Rightarrow> CLICActiveInterrupt \<Rightarrow> RISCVCLICState" where
  "post_interrupt ctx clic a =
     (let i = unat (irq a);
          clic1 = (if riscv_clic_is_edge_triggered clic i \<and> riscv_clic_is_shv_interrupt clic i
                   then clic\<lparr>clicintip := (clicintip clic)[i := 0]\<rparr> else clic)
      in if qtest_enabled ctx
         then clic1\<lparr>cpu_irq := cpu_irq clic1 @ [Qtest_encode_irq i 1]\<rparr>
         else clic1\<lparr>exccode := encode_exccode ctx (irq a) (intcfg_mode (intcfg a))
                                   (intcfg_level clic (intcfg a)),
                    cpu_irq := cpu_irq clic1 @ [Level 1]\<rparr>)"

text \<open>
  The \<^verbatim>\<open>while (active_count)\<close> loop over the remaining entries of the active list.
  \<^verbatim>\<open>il[mode]\<close> is read only when \<^verbatim>\<open>mode == env->priv\<close>; the array has four elements.
\<close>

fun scan_active ::
  "hart_ctx \<Rightarrow> cpu_env \<Rightarrow> RISCVCLICState \<Rightarrow> CLICActiveInterrupt list
     \<Rightarrow> RISCVCLICState result" where
  "scan_active ctx env clic [] = Inr clic"
| "scan_active ctx env clic (a # rest) =
     (let mode = unat (intcfg_mode (intcfg a));
          level = unat (intcfg_level clic (intcfg a))
      in if mode < priv env then Inr clic
         else if mode = priv env \<and> 4 \<le> mode then Inl Out_of_bounds
         else if mode = priv env \<and> level < il_thresholds env clic ! mode then Inr clic
         else if length (clicintip clic) \<le> unat (irq a) then Inl Out_of_bounds
         else if clicintip clic ! unat (irq a) \<noteq> 0 then Inr (post_interrupt ctx clic a)
         else scan_active ctx env clic rest)"

definition riscv_clic_next_interrupt :: "hart_ctx \<Rightarrow> RISCVCLICState \<Rightarrow> RISCVCLICState result" where
  "riscv_clic_next_interrupt ctx clic =
     (case cpu ctx of
        None \<Rightarrow> Inr clic
      | Some env \<Rightarrow> scan_active ctx env clic (active_list clic))"

section \<open>CLIC: visibility and validation\<close>

text \<open>\<^verbatim>\<open>riscv_clic_check_visible\<close>; \<^verbatim>\<open>exit(1)\<close> on an \<open>nmbits\<close> value the privilege set excludes.\<close>

definition riscv_clic_check_visible :: "RISCVCLICState \<Rightarrow> nat \<Rightarrow> nat \<Rightarrow> bool result" where
  "riscv_clic_check_visible clic mode i =
     (let attr_mode = unat (intattr_mode (clicintattr clic ! i))
      in if \<not> prv_s clic \<and> \<not> prv_u clic then Inr (mode = PRV_M)
         else if prv_s clic \<and> prv_u clic then
           (if nmbits clic = 0 then Inr (mode = PRV_M)
            else if nmbits clic = 1 then Inr (mode = PRV_M \<or> attr_mode \<le> PRV_S)
            else if nmbits clic = 2 then Inr (mode \<ge> attr_mode)
            else Inl Exit_nmbits)
         else
           (if nmbits clic = 0 then Inr (mode = PRV_M)
            else if nmbits clic = 1 then Inr (mode = PRV_M \<or> attr_mode \<le> PRV_S)
            else Inl Exit_nmbits))"

definition riscv_clic_validate_intip :: "RISCVCLICState \<Rightarrow> nat \<Rightarrow> bool" where
  "riscv_clic_validate_intip clic i = riscv_clic_is_edge_triggered clic i"

text \<open>
  \<^verbatim>\<open>riscv_clic_validate_intattr(clic, value)\<close>; the parameter is a \<^verbatim>\<open>uint8_t\<close>.
  Outside qtest the current CPU's \<^verbatim>\<open>env->priv\<close> is read.
\<close>

definition riscv_clic_validate_intattr :: "hart_ctx \<Rightarrow> u8 \<Rightarrow> bool result" where
  "riscv_clic_validate_intattr ctx val =
     (let mode = unat (drop_bit 6 val AND 3)
      in if \<not> qtest_enabled ctx then
           (case cpu ctx of
              None \<Rightarrow> Inl Null_env
            | Some env \<Rightarrow> Inr (\<not> priv env < mode))
         else Inr True)"

text \<open>\<^verbatim>\<open>riscv_clic_effective_mode(clic, intattr)\<close>; the parameter is a \<^verbatim>\<open>uint8_t\<close>.\<close>

definition riscv_clic_effective_mode :: "RISCVCLICState \<Rightarrow> u8 \<Rightarrow> u8 result" where
  "riscv_clic_effective_mode clic intattr =
     (let mode = intattr_mode intattr
      in if nmbits clic = 0 then Inr 3
         else if nmbits clic = 1 then
           (if mode \<le> 1 then
              (if prv_s clic then Inr 1
               else if prv_u clic then Inr 0
               else Inl Assert_prv_u)
            else Inr 3)
         else if nmbits clic = 2 then Inr mode
         else Inl Assert_nmbits_le_2)"

text \<open>\<^verbatim>\<open>riscv_clic_get_irq\<close>\<close>

definition riscv_clic_get_irq :: "nat \<Rightarrow> nat" where
  "riscv_clic_get_irq addr = addr div 4"

section \<open>CLIC: the sorted list of enabled interrupts\<close>

text \<open>\<^verbatim>\<open>riscv_clic_encode_priority\<close>: an \<^verbatim>\<open>int\<close> of at most 22 bits.\<close>

definition riscv_clic_encode_priority :: "CLICActiveInterrupt \<Rightarrow> nat" where
  "riscv_clic_encode_priority i =
     (let priority = push_bit CLIC_IRQ_BITS (unat (intcfg i) AND CLIC_INTCFG_MASK);
          irqn = unat (irq i) AND CLIC_IRQ_MASK
      in priority OR irqn)"

text \<open>\<^verbatim>\<open>riscv_clic_active_compare(a, b)\<close>\<close>

definition riscv_clic_active_compare :: "CLICActiveInterrupt \<Rightarrow> CLICActiveInterrupt \<Rightarrow> int" where
  "riscv_clic_active_compare a b =
     int (riscv_clic_encode_priority b) - int (riscv_clic_encode_priority a)"

text \<open>
  The C library's \<^verbatim>\<open>bsearch\<close> with \<^verbatim>\<open>riscv_clic_active_compare\<close>: binary search
  between \<open>l\<close> and \<open>u\<close>, returning the index of a matching element or \<open>None\<close> (NULL).
\<close>

function bsearch_active ::
  "CLICActiveInterrupt \<Rightarrow> CLICActiveInterrupt list \<Rightarrow> nat \<Rightarrow> nat \<Rightarrow> nat option" where
  "bsearch_active key xs l u =
     (if l < u \<and> u \<le> length xs then
        (let idx = (l + u) div 2;
             comparison = riscv_clic_active_compare key (xs ! idx)
         in if comparison < 0 then bsearch_active key xs l idx
            else if comparison > 0 then bsearch_active key xs (idx + 1) u
            else Some idx)
      else None)"
  by pat_completeness auto
termination
  by (relation "measure (\<lambda>(key, xs, l, u). u - l)") auto

text \<open>
  The C library's \<^verbatim>\<open>qsort\<close> with \<^verbatim>\<open>riscv_clic_active_compare\<close>: the elements in
  descending order of \<^verbatim>\<open>riscv_clic_encode_priority\<close>. Two elements with the same
  encoded priority have the same mode, control byte and interrupt number, so their
  relative order is not observable by the CLIC.
\<close>

definition qsort_active :: "CLICActiveInterrupt list \<Rightarrow> CLICActiveInterrupt list" where
  "qsort_active xs = sort_key (\<lambda>a. - int (riscv_clic_encode_priority a)) xs"

text \<open>
  The bytes of one array element in memory (\<^verbatim>\<open>uint16_t intcfg\<close>, then
  \<^verbatim>\<open>uint16_t irq\<close>, on a little-endian host) and the element read back from four bytes.
\<close>

definition active_bytes :: "CLICActiveInterrupt \<Rightarrow> u8 list" where
  "active_bytes a =
     [ucast (intcfg a), ucast (drop_bit 8 (intcfg a)), ucast (irq a), ucast (drop_bit 8 (irq a))]"

fun bytes_active :: "u8 list \<Rightarrow> CLICActiveInterrupt list" where
  "bytes_active (b0 # b1 # b2 # b3 # rest) =
     \<lparr>intcfg = ucast b0 OR push_bit 8 (ucast b1), irq = ucast b2 OR push_bit 8 (ucast b3)\<rparr>
       # bytes_active rest"
| "bytes_active _ = []"

text \<open>\<^verbatim>\<open>memmove(dst, src, n)\<close> inside one byte array: \<open>n\<close> bytes from offset \<open>src\<close> to offset \<open>dst\<close>.\<close>

definition memmove_bytes :: "u8 list \<Rightarrow> nat \<Rightarrow> nat \<Rightarrow> nat \<Rightarrow> u8 list" where
  "memmove_bytes bs dst src n = take dst bs @ take n (drop src bs) @ drop (dst + n) bs"

text \<open>
  The removal branch of \<^verbatim>\<open>riscv_clic_update_intie\<close> after \<^verbatim>\<open>bsearch\<close> found index
  \<open>elem\<close>: \<^verbatim>\<open>sz = --active_count - elem\<close>, then
  \<^verbatim>\<open>memmove(&result[0], &result[1], sz)\<close>, whose third argument counts bytes.
\<close>

definition remove_active :: "CLICActiveInterrupt list \<Rightarrow> nat \<Rightarrow> CLICActiveInterrupt list" where
  "remove_active xs elem =
     (let count = length xs - 1;
          sz = count - elem;
          bs = memmove_bytes (concat (map active_bytes xs)) (4 * elem) (4 * (elem + 1)) sz
      in take count (bytes_active bs))"

text \<open>\<^verbatim>\<open>riscv_clic_update_intip\<close>\<close>

definition riscv_clic_update_intip ::
  "hart_ctx \<Rightarrow> RISCVCLICState \<Rightarrow> nat \<Rightarrow> u64 \<Rightarrow> RISCVCLICState result" where
  "riscv_clic_update_intip ctx clic i val =
     riscv_clic_next_interrupt ctx
       (clic\<lparr>clicintip := (clicintip clic)[i := (if val \<noteq> 0 then 1 else 0)]\<rparr>)"

text \<open>
  \<^verbatim>\<open>riscv_clic_update_intie(clic, mode, irq, new_intie)\<close>. The C array
  \<^verbatim>\<open>active_list\<close> has \<open>num_sources\<close> elements, so appending to a full list is an access
  out of range.
\<close>

definition riscv_clic_update_intie ::
  "hart_ctx \<Rightarrow> RISCVCLICState \<Rightarrow> nat \<Rightarrow> nat \<Rightarrow> u64 \<Rightarrow> RISCVCLICState result" where
  "riscv_clic_update_intie ctx clic mode i new_intie =
     (let old_intie = clicintie clic ! i;
          clic1 = clic\<lparr>clicintie := (clicintie clic)[i := (if new_intie \<noteq> 0 then 1 else 0)]\<rparr>;
          key = \<lparr>intcfg = (of_nat (push_bit 8 mode) :: u16) OR ucast (clicintctl clic ! i),
                 irq = (of_nat i :: u16)\<rparr>
      in if new_intie \<noteq> 0 \<and> old_intie = 0 then
           (if num_sources clic \<le> length (active_list clic) then Inl Out_of_bounds
            else riscv_clic_next_interrupt ctx
                   (clic1\<lparr>active_list := qsort_active (active_list clic @ [key])\<rparr>))
         else if new_intie = 0 \<and> old_intie \<noteq> 0 then
           (case bsearch_active key (active_list clic) 0 (length (active_list clic)) of
              None \<Rightarrow> Inl Assert_bsearch_result
            | Some elem \<Rightarrow>
                riscv_clic_next_interrupt ctx
                  (clic1\<lparr>active_list := qsort_active (remove_active (active_list clic) elem)\<rparr>))
         else
           riscv_clic_next_interrupt ctx
             (clic1\<lparr>active_list := qsort_active (active_list clic)\<rparr>))"

section \<open>CLIC: per-interrupt register access\<close>

text \<open>
  \<^verbatim>\<open>set_field(value, CLIC_INTATTR_MODE, field_mode)\<close> on the 64-bit \<^verbatim>\<open>value\<close> of
  \<^verbatim>\<open>riscv_clic_hart_write\<close>, and on the 8-bit \<^verbatim>\<open>intattr\<close> of \<^verbatim>\<open>riscv_clic_hart_read\<close>.
\<close>

definition set_field_mode64 :: "u64 \<Rightarrow> u8 \<Rightarrow> u64" where
  "set_field_mode64 val field_mode =
     (val AND NOT 0xc0) OR (push_bit 6 (ucast field_mode) AND 0xc0)"

definition set_field_mode8 :: "u8 \<Rightarrow> u8 \<Rightarrow> u8" where
  "set_field_mode8 intattr field_mode =
     (intattr AND NOT 0xc0) OR (push_bit 6 field_mode AND 0xc0)"

text \<open>\<^verbatim>\<open>case 2\<close> of \<^verbatim>\<open>riscv_clic_hart_write\<close>: a write to \<^verbatim>\<open>clicintattr[i]\<close>.\<close>

definition write_clicintattr ::
  "hart_ctx \<Rightarrow> RISCVCLICState \<Rightarrow> nat \<Rightarrow> u64 \<Rightarrow> RISCVCLICState result" where
  "write_clicintattr ctx clic i val =
     (case riscv_clic_effective_mode clic (ucast val) of
        Inl e \<Rightarrow> Inl e
      | Inr eff \<Rightarrow>
          let field_mode = (if unat eff = PRV_RESERVED
                            then intattr_mode (clicintattr clic ! i) else eff);
              val1 = set_field_mode64 val field_mode
          in case riscv_clic_validate_intattr ctx (ucast val1) of
               Inl e \<Rightarrow> Inl e
             | Inr valid \<Rightarrow>
                 if valid \<and> ucast (clicintattr clic ! i) \<noteq> val1
                 then riscv_clic_next_interrupt ctx
                        (clic\<lparr>clicintattr := (clicintattr clic)[i := ucast val1]\<rparr>)
                 else Inr clic)"

text \<open>\<^verbatim>\<open>case 3\<close> of \<^verbatim>\<open>riscv_clic_hart_write\<close>: a write to \<^verbatim>\<open>clicintctl[i]\<close>.\<close>

definition write_clicintctl ::
  "hart_ctx \<Rightarrow> RISCVCLICState \<Rightarrow> nat \<Rightarrow> u64 \<Rightarrow> RISCVCLICState result" where
  "write_clicintctl ctx clic i val =
     (if val \<noteq> ucast (clicintctl clic ! i)
      then riscv_clic_next_interrupt ctx
             (clic\<lparr>clicintctl := (clicintctl clic)[i := ucast val]\<rparr>)
      else Inr clic)"

text \<open>
  \<^verbatim>\<open>riscv_clic_hart_write(clic, addr, value, size, mode, irq)\<close>, and the loop
  \<^verbatim>\<open>for (i = 1; i < width; i++)\<close> of its \<^verbatim>\<open>case 0\<close>, which calls it again with size 1.
\<close>

function riscv_clic_hart_write ::
    "hart_ctx \<Rightarrow> RISCVCLICState \<Rightarrow> nat \<Rightarrow> u64 \<Rightarrow> nat \<Rightarrow> nat \<Rightarrow> nat \<Rightarrow> RISCVCLICState result"
  and hart_write_loop ::
    "hart_ctx \<Rightarrow> RISCVCLICState \<Rightarrow> nat \<Rightarrow> u64 \<Rightarrow> nat \<Rightarrow> nat \<Rightarrow> nat \<Rightarrow> nat \<Rightarrow> RISCVCLICState result"
  where
  "riscv_clic_hart_write ctx clic addr val sz mode i =
     (let req = addr mod 4
      in if i \<ge> num_sources clic then Inr clic
         else if req = 0 then
           (case (if riscv_clic_validate_intip clic i \<and> val \<noteq> ucast (clicintip clic ! i)
                  then riscv_clic_update_intip ctx clic i val else Inr clic) of
              Inl e \<Rightarrow> Inl e
            | Inr clic1 \<Rightarrow>
                if sz > 1 then hart_write_loop ctx clic1 addr val 1 (min sz 4) mode i
                else Inr clic1)
         else if req = 1 then
           (if ucast (clicintie clic ! i) \<noteq> val
            then riscv_clic_update_intie ctx clic mode i val else Inr clic)
         else if req = 2 then write_clicintattr ctx clic i val
         else write_clicintctl ctx clic i val)"
| "hart_write_loop ctx clic addr val k width mode i =
     (if k < width then
        (case riscv_clic_hart_write ctx clic (addr + k) (drop_bit (k * 8) val AND 0xFF) 1 mode i of
           Inl e \<Rightarrow> Inl e
         | Inr clic1 \<Rightarrow> hart_write_loop ctx clic1 addr val (k + 1) width mode i)
      else Inr clic)"
  by pat_completeness auto
termination
  by (relation "measure (\<lambda>x. case x of
          Inl (ctx, clic, addr, val, sz, mode, i) \<Rightarrow> (if sz > 1 then min sz 4 + 1 else 0)
        | Inr (ctx, clic, addr, val, k, width, mode, i) \<Rightarrow> (width - k) + 1)") auto

declare riscv_clic_hart_write.simps [simp del] hart_write_loop.simps [simp del]

text \<open>
  \<^verbatim>\<open>riscv_clic_hart_read(clic, addr, size, mode, irq)\<close>, and the loop
  \<^verbatim>\<open>for (i = 1; i < size; ++i)\<close> of its \<^verbatim>\<open>case 0\<close>. The padding of \<^verbatim>\<open>clicintctl\<close> is
  \<^verbatim>\<open>(1 << (8 - clicintctlbits)) - 1\<close>, with \<open>clicintctlbits \<le> 8\<close> asserted when the
  device is created.
\<close>

function riscv_clic_hart_read ::
    "RISCVCLICState \<Rightarrow> nat \<Rightarrow> nat \<Rightarrow> nat \<Rightarrow> nat \<Rightarrow> u64 result"
  and hart_read_loop ::
    "RISCVCLICState \<Rightarrow> nat \<Rightarrow> u64 \<Rightarrow> nat \<Rightarrow> nat \<Rightarrow> nat \<Rightarrow> nat \<Rightarrow> u64 result"
  where
  "riscv_clic_hart_read clic addr sz mode i =
     (let req = addr mod 4
      in if i \<ge> num_sources clic then Inr 0
         else if req = 0 then
           (let retval = ucast (clicintip clic ! i)
            in if sz > 1 then hart_read_loop clic addr retval 1 sz mode i
               else Inr retval)
         else if req = 1 then Inr (ucast (clicintie clic ! i))
         else if req = 2 then
           (let intattr = clicintattr clic ! i AND CLIC_INTATTR_MASK
            in case riscv_clic_effective_mode clic intattr of
                 Inl e \<Rightarrow> Inl e
               | Inr field_mode \<Rightarrow> Inr (ucast (set_field_mode8 intattr field_mode)))
         else Inr (ucast (clicintctl clic ! i) OR of_nat (2 ^ (8 - clicintctlbits clic) - 1)))"
| "hart_read_loop clic addr retval k sz mode i =
     (if k < sz then
        (case riscv_clic_hart_read clic (addr + k) 1 mode i of
           Inl e \<Rightarrow> Inl e
         | Inr subval \<Rightarrow>
             hart_read_loop clic addr (retval OR push_bit (k * 8) (subval AND 0xFF))
               (k + 1) sz mode i)
      else Inr retval)"
  by pat_completeness auto
termination
  by (relation "measure (\<lambda>x. case x of
          Inl (clic, addr, sz, mode, i) \<Rightarrow> (if sz > 1 then sz + 1 else 0)
        | Inr (clic, addr, retval, k, sz, mode, i) \<Rightarrow> (sz - k) + 1)") auto

declare riscv_clic_hart_read.simps [simp del] hart_read_loop.simps [simp del]

section \<open>CLIC: the memory-mapped views\<close>

text \<open>
  \<^verbatim>\<open>case 0\<close> of the configuration region in \<^verbatim>\<open>riscv_clic_write\<close>: a write to
  \<^verbatim>\<open>cliccfg\<close> through the view of access mode \<open>mode\<close>.
\<close>

definition write_cliccfg :: "RISCVCLICState \<Rightarrow> nat \<Rightarrow> u64 \<Rightarrow> RISCVCLICState" where
  "write_cliccfg clic mode val =
     (let new_mnlbits = (ucast (val AND 0xf) :: u8);
          new_nmbits = (ucast (drop_bit 4 val AND 3) :: u8);
          new_snlbits = (ucast (drop_bit 16 val AND 0xf) :: u8);
          new_unlbits = (ucast (drop_bit 24 val AND 0xf) :: u8);
          clic1 = (if new_mnlbits \<le> 8 \<and> PRV_M = mode
                   then clic\<lparr>mnlbits := new_mnlbits\<rparr> else clic);
          clic2 = (if prv_s clic \<and> new_snlbits \<le> 8 \<and> mode \<ge> PRV_S
                   then clic1\<lparr>snlbits := new_snlbits\<rparr> else clic1);
          clic3 = (if prv_u clic \<and> new_unlbits \<le> 8
                   then clic2\<lparr>unlbits := new_unlbits\<rparr> else clic2)
      in if PRV_M = mode then
           (if prv_s clic \<and> prv_u clic then
              (if new_nmbits \<le> 2 then clic3\<lparr>nmbits := new_nmbits\<rparr> else clic3)
            else if prv_s clic \<or> prv_u clic then
              (if new_nmbits \<le> 1 then clic3\<lparr>nmbits := new_nmbits\<rparr> else clic3)
            else
              (if new_nmbits = 0 then clic3\<lparr>nmbits := 0\<rparr> else clic3))
         else clic3)"

text \<open>The \<^verbatim>\<open>clicinttrig\<close> case of \<^verbatim>\<open>riscv_clic_write\<close>.\<close>

definition write_clicinttrig :: "RISCVCLICState \<Rightarrow> nat \<Rightarrow> u64 \<Rightarrow> RISCVCLICState" where
  "write_clicinttrig clic index val =
     (let interrupt_number = (ucast val :: u32) AND CLIC_INTTRIG_IRQN
      in if unat interrupt_number \<le> num_sources clic
         then clic\<lparr>clicinttrig := (clicinttrig clic)[index - CLIC_INTTRIG_START :=
                       (ucast val :: u32) AND CLIC_INTTRIG_MASK]\<rparr>
         else clic)"

text \<open>
  \<^verbatim>\<open>riscv_clic_write(opaque, addr, value, size)\<close> through a view of access mode
  \<open>mode\<close>. \<^verbatim>\<open>env->priv\<close> is read before anything else.
  \<^verbatim>\<open>riscv_clic_check_visible\<close> reads \<^verbatim>\<open>clicintattr[irq]\<close> before the interrupt number is
  compared with \<^verbatim>\<open>num_sources\<close>.
\<close>

definition riscv_clic_write ::
  "hart_ctx \<Rightarrow> nat \<Rightarrow> RISCVCLICState \<Rightarrow> nat \<Rightarrow> u64 \<Rightarrow> nat \<Rightarrow> RISCVCLICState result" where
  "riscv_clic_write ctx mode clic addr val sz =
     (case cpu ctx of
        None \<Rightarrow> Inl Null_env
      | Some env \<Rightarrow>
          if \<not> addr < clic_size clic then Inl Assert_addr_lt_clic_size
          else if mode > priv env then Inr clic
          else if addr < CLIC_INTCTL_BASE then
            (if addr mod 4 \<noteq> 0 then Inl Assert_addr_aligned
             else
               let index = addr div 4
               in if index = 0 then Inr (write_cliccfg clic mode val)
                  else if CLIC_INTTRIG_START \<le> index \<and> index \<le> CLIC_INTTRIG_END
                    then Inr (write_clicinttrig clic index val)
                  else if index = 2 then
                    (if version clic = ''v0.8'' then Inr (clic\<lparr>mintthresh := ucast val\<rparr>)
                     else Inr clic)
                  else Inr clic)
          else
            let addr1 = addr - CLIC_INTCTL_BASE;
                i = riscv_clic_get_irq addr1
            in if length (clicintattr clic) \<le> i then Inl Out_of_bounds
               else
                 (case riscv_clic_check_visible clic mode i of
                    Inl e \<Rightarrow> Inl e
                  | Inr visible \<Rightarrow>
                      if visible then riscv_clic_hart_write ctx clic addr1 val sz mode i
                      else Inr clic))"

text \<open>The value of \<^verbatim>\<open>cliccfg\<close> read through the view of access mode \<open>mode\<close>.\<close>

definition read_cliccfg :: "RISCVCLICState \<Rightarrow> nat \<Rightarrow> u64" where
  "read_cliccfg clic mode =
     (let cfg0 = (if PRV_M = mode
                  then ucast (mnlbits clic) OR push_bit 4 (ucast (nmbits clic)) else 0);
          cfg1 = (if prv_s clic \<and> mode \<ge> PRV_S
                  then cfg0 OR push_bit 16 (ucast (snlbits clic)) else cfg0)
      in if prv_u clic \<and> mode \<ge> PRV_U
         then cfg1 OR push_bit 24 (ucast (unlbits clic)) else cfg1)"

text \<open>\<^verbatim>\<open>riscv_clic_read(opaque, addr, size)\<close> through a view of access mode \<open>mode\<close>.\<close>

definition riscv_clic_read ::
  "hart_ctx \<Rightarrow> nat \<Rightarrow> RISCVCLICState \<Rightarrow> nat \<Rightarrow> nat \<Rightarrow> u64 result" where
  "riscv_clic_read ctx mode clic addr sz =
     (case cpu ctx of
        None \<Rightarrow> Inl Null_env
      | Some env \<Rightarrow>
          if \<not> addr < clic_size clic then Inl Assert_addr_lt_clic_size
          else if mode > priv env then Inr 0
          else if addr < CLIC_INTCTL_BASE then
            (if addr mod 4 \<noteq> 0 then Inl Assert_addr_aligned
             else
               let index = addr div 4
               in if index = 0 then Inr (read_cliccfg clic mode)
                  else if CLIC_INTTRIG_START \<le> index \<and> index \<le> CLIC_INTTRIG_END then
                    (if length (clicinttrig clic) \<le> index - CLIC_INTTRIG_START
                     then Inl Out_of_bounds
                     else Inr (ucast (clicinttrig clic ! (index - CLIC_INTTRIG_START)
                                        AND CLIC_INTTRIG_MASK)))
                  else if index = 2 then
                    (if version clic = ''v0.8'' then Inr (ucast (mintthresh clic)) else Inr 0)
                  else Inr 0)
          else
            let addr1 = addr - CLIC_INTCTL_BASE;
                i = riscv_clic_get_irq addr1
            in if length (clicintattr clic) \<le> i then Inl Out_of_bounds
               else
                 (case riscv_clic_check_visible clic mode i of
                    Inl e \<Rightarrow> Inl e
                  | Inr visible \<Rightarrow>
                      if visible then riscv_clic_hart_read clic addr1 sz mode i
                      else Inr 0))"

section \<open>CLIC: input lines and the CPU-side helpers\<close>

text \<open>
  \<^verbatim>\<open>riscv_clic_set_irq(opaque, id, level)\<close>. The device has \<open>num_sources\<close> input lines
  (\<^verbatim>\<open>qdev_init_gpio_in\<close>); a line number beyond the arrays is an access out of range.
  The trigger type is a 2-bit field, so the \<^verbatim>\<open>default\<close> branches cannot be taken.
\<close>

definition riscv_clic_set_irq ::
  "hart_ctx \<Rightarrow> RISCVCLICState \<Rightarrow> nat \<Rightarrow> int \<Rightarrow> RISCVCLICState result" where
  "riscv_clic_set_irq ctx clic line level =
     (if length (clicintattr clic) \<le> line \<or> length (clicintip clic) \<le> line then Inl Out_of_bounds
      else
        let trig = riscv_clic_get_trigger_type clic line
        in if level \<noteq> 0 then
             (if trig = POSITIVE_LEVEL \<or> trig = POSITIVE_EDGE
                then riscv_clic_update_intip ctx clic line (of_int level)
              else if trig = NEG_LEVEL then riscv_clic_update_intip ctx clic line 0
              else Inr clic)
           else
             (if trig = POSITIVE_LEVEL then riscv_clic_update_intip ctx clic line (of_int level)
              else if trig = POSITIVE_EDGE then Inr clic
              else riscv_clic_update_intip ctx clic line 1))"

text \<open>\<^verbatim>\<open>riscv_clic_clean_pending(opaque, irq)\<close>\<close>

definition riscv_clic_clean_pending :: "RISCVCLICState \<Rightarrow> nat \<Rightarrow> RISCVCLICState result" where
  "riscv_clic_clean_pending clic i =
     (if length (clicintip clic) \<le> i then Inl Out_of_bounds
      else Inr (clic\<lparr>clicintip := (clicintip clic)[i := 0]\<rparr>))"

text \<open>\<^verbatim>\<open>riscv_clic_get_next_interrupt(opaque)\<close>\<close>

definition riscv_clic_get_next_interrupt ::
  "hart_ctx \<Rightarrow> RISCVCLICState \<Rightarrow> RISCVCLICState result" where
  "riscv_clic_get_next_interrupt ctx clic = riscv_clic_next_interrupt ctx clic"

text \<open>
  The state after \<^verbatim>\<open>riscv_clic_create\<close> and \<^verbatim>\<open>riscv_clic_realize\<close>: the properties
  set by \<^verbatim>\<open>riscv_clic_create\<close> (\<open>num-sources\<close>, \<open>clic-size\<close>, \<open>clicintctlbits\<close>,
  \<open>version\<close>, \<open>jump-table\<close>), the defaults of the others (\<open>shv-enabled\<close> true, the
  three level-bit widths 8), \<open>nmbits\<close> from the configured privileges, and
  zero-filled arrays. \<open>s_view\<close> and \<open>u_view\<close> say whether a base address was given
  for the S and U views.
\<close>

definition riscv_clic_realize ::
  "nat \<Rightarrow> nat \<Rightarrow> bool \<Rightarrow> bool \<Rightarrow> bool \<Rightarrow> RISCVCLICState" where
  "riscv_clic_realize n_sources intctlbits s_view u_view jump =
     \<lparr>shv_enabled = True,
      jump_table = jump,
      num_sources = n_sources,
      clic_size = n_sources * 4 + CLIC_INTCTL_BASE,
      clicintctlbits = intctlbits,
      prv_s = s_view,
      prv_u = u_view,
      version = ''v0.9'',
      nmbits = (if s_view \<and> u_view then 2 else if s_view \<or> u_view then 1 else 0),
      mnlbits = 8,
      snlbits = (if s_view then 8 else 0),
      unlbits = (if u_view then 8 else 0),
      clicinttrig = replicate 32 0,
      clicintip = replicate n_sources 0,
      clicintie = replicate n_sources 0,
      clicintattr = replicate n_sources 0,
      clicintctl = replicate n_sources 0,
      mintthresh = 0,
      sintthresh = 0,
      uintthresh = 0,
      exccode = 0,
      active_list = [],
      cpu_irq = []\<rparr>"

text \<open>
  One operation on the device: a write through a view, a change of an input line,
  or one of the two calls the CPU makes into the CLIC.
\<close>

datatype clic_op =
    Mmio_write nat nat u64 nat
  | Set_irq nat int
  | Clean_pending nat
  | Get_next_interrupt

fun clic_step :: "hart_ctx \<Rightarrow> RISCVCLICState \<Rightarrow> clic_op \<Rightarrow> RISCVCLICState result" where
  "clic_step ctx clic (Mmio_write mode addr val sz) = riscv_clic_write ctx mode clic addr val sz"
| "clic_step ctx clic (Set_irq line level) = riscv_clic_set_irq ctx clic line level"
| "clic_step ctx clic (Clean_pending i) = riscv_clic_clean_pending clic i"
| "clic_step ctx clic Get_next_interrupt = riscv_clic_get_next_interrupt ctx clic"

text \<open>
  A sequence of operations, each with the hart context it runs in (the CPU's privilege
  and thresholds change between operations), stopping at the first one that does not
  return.
\<close>

fun clic_run :: "RISCVCLICState \<Rightarrow> (hart_ctx \<times> clic_op) list \<Rightarrow> RISCVCLICState result" where
  "clic_run clic [] = Inr clic"
| "clic_run clic ((ctx, op) # ops) =
     (case clic_step ctx clic op of
        Inl e \<Rightarrow> Inl e
      | Inr clic1 \<Rightarrow> clic_run clic1 ops)"

section \<open>The UART (\<^verbatim>\<open>hw/char/thead_uart.c\<close>)\<close>

abbreviation (input) lsr_TEMT :: u32 where "lsr_TEMT \<equiv> 0x40"
abbreviation (input) lsr_THRE :: u32 where "lsr_THRE \<equiv> 0x20"
abbreviation (input) lsr_OE :: u32 where "lsr_OE \<equiv> 0x2"
abbreviation (input) lsr_DR :: u32 where "lsr_DR \<equiv> 0x1"
abbreviation (input) usr_REF :: u32 where "usr_REF \<equiv> 0x10"
abbreviation (input) usr_RFNE :: u32 where "usr_RFNE \<equiv> 0x8"
abbreviation (input) INT_NONE :: u32 where "INT_NONE \<equiv> 0x1"
abbreviation (input) INT_TX :: u32 where "INT_TX \<equiv> 0x2"
abbreviation (input) INT_RX :: u32 where "INT_RX \<equiv> 0x4"

text \<open>
  \<^verbatim>\<open>thead_uart_state\<close>. \<open>uart_irq\<close> is the log of the levels passed to
  \<^verbatim>\<open>qemu_set_irq(s->irq, _)\<close>, oldest first; \<open>chr_out\<close> is the bytes handed to the
  character back-end by \<^verbatim>\<open>qemu_chr_fe_write_all\<close>.
\<close>

record thead_uart_state =
  dll :: u32
  dlh :: u32
  ier :: u32
  iir :: u32
  fcr :: u32
  lcr :: u32
  mcr :: u32
  lsr :: u32
  msr :: u32
  usr :: u32
  rx_fifo :: "u32 list"
  rx_pos :: int
  rx_count :: int
  rx_trigger :: int
  uart_irq :: "int list"
  chr_out :: "u8 list"

text \<open>The state after \<^verbatim>\<open>thead_uart_init\<close> on a zero-filled object.\<close>

definition thead_uart_init :: thead_uart_state where
  "thead_uart_init =
     \<lparr>dll = 0, dlh = 0x4, ier = 0, iir = 0x1, fcr = 0, lcr = 0, mcr = 0, lsr = 0x60,
      msr = 0, usr = 0x6, rx_fifo = replicate 16 0, rx_pos = 0, rx_count = 0,
      rx_trigger = 1, uart_irq = [], chr_out = []\<rparr>"

text \<open>\<^verbatim>\<open>thead_uart_update\<close>\<close>

definition thead_uart_update :: "thead_uart_state \<Rightarrow> thead_uart_state" where
  "thead_uart_update s =
     (let flags = ((iir s AND 0xf = INT_TX \<and> ier s AND 0x2 \<noteq> 0) \<or>
                   (iir s AND 0xf = INT_RX \<and> ier s AND 0x1 \<noteq> 0))
      in s\<lparr>uart_irq := uart_irq s @ [if flags then 1 else 0]\<rparr>)"

text \<open>
  \<^verbatim>\<open>thead_uart_read(opaque, offset, size)\<close>: the value read and the new state;
  \<open>None\<close> where \<^verbatim>\<open>rx_fifo\<close> would be indexed out of range.
\<close>

definition thead_uart_read ::
  "thead_uart_state \<Rightarrow> nat \<Rightarrow> nat \<Rightarrow> (u64 \<times> thead_uart_state) option" where
  "thead_uart_read s offset sz =
     (let reg = drop_bit 2 (offset AND 0xfff)
      in if reg = 0x0 then
           (if lcr s AND 0x80 \<noteq> 0 then Some (ucast (dll s), s)
            else if fcr s AND 0x1 \<noteq> 0 then
              (if rx_pos s < 0 \<or> int (length (rx_fifo s)) \<le> rx_pos s then None
               else
                 let s1 = s\<lparr>usr := usr s AND NOT usr_REF\<rparr>;
                     c = rx_fifo s1 ! nat (rx_pos s1);
                     s2 = (if rx_count s1 > 0
                           then s1\<lparr>rx_count := rx_count s1 - 1,
                                   rx_pos := (if rx_pos s1 + 1 = 16 then 0 else rx_pos s1 + 1)\<rparr>
                           else s1);
                     s3 = (if rx_count s2 = 0
                           then s2\<lparr>lsr := lsr s2 AND NOT lsr_DR, usr := usr s2 AND NOT usr_RFNE\<rparr>
                           else s2);
                     s4 = thead_uart_update (s3\<lparr>iir := (iir s3 AND NOT 0xf) OR INT_NONE\<rparr>)
                 in Some (ucast c, s4))
            else
              (case rx_fifo s of
                 [] \<Rightarrow> None
               | c # _ \<Rightarrow>
                   let s1 = s\<lparr>usr := (usr s AND NOT usr_REF) AND NOT usr_RFNE,
                              lsr := lsr s AND NOT lsr_DR\<rparr>;
                       s2 = thead_uart_update (s1\<lparr>iir := (iir s1 AND NOT 0xf) OR INT_NONE\<rparr>)
                   in Some (ucast c, s2)))
         else if reg = 0x1 then
           (if lcr s AND 0x80 \<noteq> 0 then Some (ucast (dlh s), s) else Some (ucast (ier s), s))
         else if reg = 0x2 then
           (if iir s AND 0xf = INT_TX then
              (let s1 = thead_uart_update (s\<lparr>iir := (iir s AND NOT 0xf) OR INT_NONE\<rparr>)
               in Some (ucast ((iir s1 AND NOT 0xf) OR INT_TX), s1))
            else Some (ucast (iir s), s))
         else if reg = 0x3 then Some (ucast (lcr s), s)
         else if reg = 0x4 then Some (ucast (mcr s), s)
         else if reg = 0x5 then Some (ucast (lsr s), s)
         else if reg = 0x6 then Some (ucast (msr s), s)
         else if reg = 0x1f then Some (ucast (usr s), s)
         else Some (0, s))"

text \<open>\<^verbatim>\<open>thead_uart_fcr_update\<close>\<close>

definition thead_uart_fcr_update :: "thead_uart_state \<Rightarrow> thead_uart_state" where
  "thead_uart_fcr_update s =
     (let sel = drop_bit 6 (fcr s) AND 0x3;
          s1 = (if fcr s AND 0x1 \<noteq> 0 then
                  (if sel = 0 then s\<lparr>rx_trigger := 1\<rparr>
                   else if sel = 1 then s\<lparr>rx_trigger := 4\<rparr>
                   else if sel = 2 then s\<lparr>rx_trigger := 8\<rparr>
                   else if sel = 3 then s\<lparr>rx_trigger := 14\<rparr>
                   else s\<lparr>rx_trigger := 1\<rparr>)
                else s\<lparr>rx_trigger := 1\<rparr>)
      in if fcr s1 AND 0x2 \<noteq> 0 then s1\<lparr>rx_pos := 0, rx_count := 0\<rparr> else s1)"

text \<open>\<^verbatim>\<open>thead_uart_write(opaque, offset, value, size)\<close>\<close>

definition thead_uart_write ::
  "thead_uart_state \<Rightarrow> nat \<Rightarrow> u64 \<Rightarrow> nat \<Rightarrow> thead_uart_state" where
  "thead_uart_write s offset val sz =
     (let reg = drop_bit 2 offset
      in if reg = 0x0 then
           (if lcr s AND 0x80 \<noteq> 0 then s\<lparr>dll := ucast val\<rparr>
            else
              let s1 = s\<lparr>chr_out := chr_out s @ [ucast val], lsr := lsr s OR (lsr_THRE OR lsr_TEMT)\<rparr>;
                  s2 = (if iir s1 AND 0xf \<noteq> INT_RX
                        then s1\<lparr>iir := (iir s1 AND NOT 0xf) OR INT_TX\<rparr> else s1)
              in thead_uart_update s2)
         else if reg = 0x1 then
           (if lcr s AND 0x80 \<noteq> 0 then s\<lparr>dlh := ucast val\<rparr>
            else thead_uart_update (s\<lparr>ier := ucast val, iir := (iir s AND NOT 0xf) OR INT_TX\<rparr>))
         else if reg = 0x2 then
           (let s1 = (if (fcr s AND 0x1) XOR (ucast val AND 0x1) \<noteq> 0
                      then s\<lparr>rx_pos := 0, rx_count := 0\<rparr> else s)
            in thead_uart_fcr_update (s1\<lparr>fcr := ucast val\<rparr>))
         else if reg = 0x3 then s\<lparr>lcr := ucast val\<rparr>
         else if reg = 0x4 then s\<lparr>mcr := ucast val\<rparr>
         else s)"

text \<open>\<^verbatim>\<open>thead_uart_can_receive\<close>\<close>

definition thead_uart_can_receive :: "thead_uart_state \<Rightarrow> int" where
  "thead_uart_can_receive s =
     (if fcr s AND 0x1 \<noteq> 0 then (if rx_count s < 16 then 1 else 0)
      else (if rx_count s < 1 then 1 else 0))"

text \<open>
  \<^verbatim>\<open>thead_uart_receive(opaque, buf, size)\<close> with \<open>size\<close> the length of \<open>buf\<close>; only
  \<^verbatim>\<open>*buf\<close> is read. \<open>None\<close> where \<^verbatim>\<open>rx_fifo\<close> would be indexed out of range.
\<close>

definition thead_uart_receive :: "thead_uart_state \<Rightarrow> u8 list \<Rightarrow> thead_uart_state option" where
  "thead_uart_receive s buf =
     (case buf of
        [] \<Rightarrow> Some s
      | b # _ \<Rightarrow>
          let s1 = (if usr s AND usr_REF \<noteq> 0 then s\<lparr>lsr := lsr s OR lsr_OE\<rparr> else s)
          in if fcr s1 AND 0x1 = 0 then
               (if rx_fifo s1 = [] then None
                else Some (thead_uart_update
                       (s1\<lparr>rx_fifo := (rx_fifo s1)[0 := ucast b],
                           usr := (usr s1 OR usr_REF) OR usr_RFNE,
                           iir := (iir s1 AND NOT 0xf) OR INT_RX,
                           lsr := lsr s1 OR lsr_DR\<rparr>)))
             else
               let slot0 = rx_pos s1 + rx_count s1;
                   slot = (if slot0 \<ge> 16 then slot0 - 16 else slot0)
               in if slot < 0 \<or> int (length (rx_fifo s1)) \<le> slot then None
                  else
                    let s2 = s1\<lparr>rx_fifo := (rx_fifo s1)[nat slot := ucast b],
                                rx_count := rx_count s1 + 1,
                                lsr := lsr s1 OR lsr_DR,
                                usr := usr s1 OR usr_RFNE\<rparr>;
                        s3 = (if rx_count s2 = 16 then s2\<lparr>usr := usr s2 OR usr_REF\<rparr> else s2)
                    in Some (thead_uart_update (s3\<lparr>iir := (iir s3 AND NOT 0xf) OR INT_RX\<rparr>)))"

text \<open>The back-end delivering the bytes of \<open>bs\<close> one call at a time.\<close>

fun uart_deliver :: "thead_uart_state \<Rightarrow> u8 list \<Rightarrow> thead_uart_state option" where
  "uart_deliver s [] = Some s"
| "uart_deliver s (b # bs) =
     (case thead_uart_receive s [b] of
        None \<Rightarrow> None
      | Some s1 \<Rightarrow> uart_deliver s1 bs)"

text \<open>The guest reading the receive buffer register \<open>n\<close> times (offset 0, four bytes
  wide): the values read and the final state.\<close>

fun uart_drain :: "thead_uart_state \<Rightarrow> nat \<Rightarrow> (u64 list \<times> thead_uart_state) option" where
  "uart_drain s 0 = Some ([], s)"
| "uart_drain s (Suc n) =
     (case thead_uart_read s 0 4 of
        None \<Rightarrow> None
      | Some (v, s1) \<Rightarrow>
          (case uart_drain s1 n of
             None \<Rightarrow> None
           | Some (vs, s2) \<Rightarrow> Some (v # vs, s2)))"

section \<open>Predicates used in the results\<close>

text \<open>The four per-interrupt arrays have \<open>num_sources\<close> elements, as allocated by
  \<^verbatim>\<open>riscv_clic_realize\<close>.\<close>

definition arrays_ok :: "RISCVCLICState \<Rightarrow> bool" where
  "arrays_ok clic =
     (length (clicintip clic) = num_sources clic \<and> length (clicintie clic) = num_sources clic \<and>
      length (clicintattr clic) = num_sources clic \<and> length (clicintctl clic) = num_sources clic)"

text \<open>Every entry of the active list names an interrupt inside the arrays and one of
  the four slots of \<^verbatim>\<open>il[4]\<close>.\<close>

definition active_in_range :: "RISCVCLICState \<Rightarrow> bool" where
  "active_in_range clic =
     list_all (\<lambda>a. unat (irq a) < length (clicintip clic) \<and> unat (intcfg_mode (intcfg a)) < 4)
       (active_list clic)"

text \<open>\<open>nmbits\<close> is one of the values \<^verbatim>\<open>riscv_clic_write\<close> accepts for the configured
  privileges.\<close>

definition nmbits_in_range :: "RISCVCLICState \<Rightarrow> u8 \<Rightarrow> bool" where
  "nmbits_in_range clic n =
     (if prv_s clic \<and> prv_u clic then n \<le> 2
      else if prv_s clic \<or> prv_u clic then n \<le> 1
      else n = 0)"

text \<open>All stored pending and enable bytes are 0 or 1.\<close>

definition ip_ie_boolean :: "RISCVCLICState \<Rightarrow> bool" where
  "ip_ie_boolean clic =
     (list_all (\<lambda>b. b = 0 \<or> b = 1) (clicintip clic) \<and>
      list_all (\<lambda>b. b = 0 \<or> b = 1) (clicintie clic))"

text \<open>The list is in descending order of the compound key
  \<^verbatim>\<open>(intcfg << CLIC_IRQ_BITS) | irq\<close>.\<close>

definition sorted_desc :: "CLICActiveInterrupt list \<Rightarrow> bool" where
  "sorted_desc xs =
     sorted_wrt (\<lambda>a b. riscv_clic_encode_priority a \<ge> riscv_clic_encode_priority b) xs"

text \<open>
  The two tests the arbitration scan makes on an entry, in the words of the
  specification: the entry ends the scan when its mode is below the current privilege,
  or equal to it with a level below that mode's threshold
  \<open>il[m] = max(cpu_threshold[m], software_threshold[m] & 0xff)\<close>, \<open>il[2] = 0\<close>;
  the entry is pending when its \<open>ip\<close> byte is not zero.
\<close>

definition spec_il :: "cpu_env \<Rightarrow> RISCVCLICState \<Rightarrow> nat \<Rightarrow> nat" where
  "spec_il env clic m =
     (if m = PRV_U then max (mintstatus_uil env) (unat (uintthresh clic) mod 256)
      else if m = PRV_S then max (mintstatus_sil env) (unat (sintthresh clic) mod 256)
      else if m = PRV_M then max (mintstatus_mil env) (unat (mintthresh clic) mod 256)
      else 0)"

definition ends_scan :: "cpu_env \<Rightarrow> RISCVCLICState \<Rightarrow> CLICActiveInterrupt \<Rightarrow> bool" where
  "ends_scan env clic a =
     (unat (intcfg_mode (intcfg a)) < priv env \<or>
      (unat (intcfg_mode (intcfg a)) = priv env \<and>
       unat (intcfg_level clic (intcfg a)) < spec_il env clic (priv env)))"

definition is_pending :: "RISCVCLICState \<Rightarrow> CLICActiveInterrupt \<Rightarrow> bool" where
  "is_pending clic a = (clicintip clic ! unat (irq a) \<noteq> 0)"

text \<open>
  \<open>same_config c c'\<close>: \<open>c'\<close> differs from \<open>c\<close> at most in the pending bytes, the
  cause word and the log of the outgoing line.
\<close>

definition same_config :: "RISCVCLICState \<Rightarrow> RISCVCLICState \<Rightarrow> bool" where
  "same_config c c' = (c' = c\<lparr>clicintip := clicintip c', exccode := exccode c', cpu_irq := cpu_irq c'\<rparr>)"

text \<open>The invariant of the device: array sizes, boolean pending and enable bytes,
  and a sorted active list.\<close>

definition clic_inv :: "RISCVCLICState \<Rightarrow> bool" where
  "clic_inv clic = (arrays_ok clic \<and> ip_ie_boolean clic \<and> sorted_desc (active_list clic))"

text \<open>The \<open>nmbits\<close> field, bits 5:4, of a value written to \<^verbatim>\<open>cliccfg\<close>.\<close>

definition cliccfg_nmbits_field :: "u64 \<Rightarrow> u8" where
  "cliccfg_nmbits_field val = ucast (drop_bit 4 val AND 3)"

section \<open>Concrete settings used in the examples\<close>

text \<open>
  A hart in M-mode with all three interrupt-level thresholds at zero, with or without
  qtest, and with the cause word laid out as \<open>irq\<close> in bits 0 to 11, \<open>mode\<close> from bit 12
  and \<open>level\<close> from bit 14.
\<close>

definition ctx_m :: "bool \<Rightarrow> hart_ctx" where
  "ctx_m q = \<lparr>cpu = Some \<lparr>priv = 3, mintstatus_uil = 0, mintstatus_sil = 0, mintstatus_mil = 0\<rparr>,
     qtest_enabled = q, clic_mode_shift = 12, clic_level_shift = 14\<rparr>"

text \<open>On a four-input CLIC: make interrupt 3 edge-triggered, write \<open>0xff\<close> to its
  enable byte and \<open>0x80\<close> to its pending byte, and raise input line 2.\<close>

definition c10_ops :: "(hart_ctx \<times> clic_op) list" where
  "c10_ops = map (Pair (ctx_m False))
     [Mmio_write 3 (0x1000 + 4 * 3 + 2) 0x02 1,
      Mmio_write 3 (0x1000 + 4 * 3 + 1) 0xff 1,
      Mmio_write 3 (0x1000 + 4 * 3) 0x80 1,
      Set_irq 2 1]"







text \<open>
  The first end-to-end scenario of the specification on a 32-input, M-only CLIC with
  eight control bits: \<open>mnlbits = 1\<close>, both interrupts M-mode, positive-edge and
  vectored (\<open>attr = 0xC3\<close>), \<open>ctl[25] = 0xBF\<close>, \<open>ctl[26] = 0x3F\<close>, both enabled; then
  software sets both pending bytes; then input line 25 goes low and high.
\<close>

definition c2_setup :: "clic_op list" where
  "c2_setup =
    [Mmio_write 3 0 1 1,
     Mmio_write 3 (0x1000 + 4 * 25 + 2) 0xc3 1,
     Mmio_write 3 (0x1000 + 4 * 26 + 2) 0xc3 1,
     Mmio_write 3 (0x1000 + 4 * 25 + 3) 0xbf 1,
     Mmio_write 3 (0x1000 + 4 * 26 + 3) 0x3f 1,
     Mmio_write 3 (0x1000 + 4 * 25 + 1) 1 1,
     Mmio_write 3 (0x1000 + 4 * 26 + 1) 1 1]"

definition c2_set_pending :: "clic_op list" where
  "c2_set_pending =
    [Mmio_write 3 (0x1000 + 4 * 25) 1 1,
     Mmio_write 3 (0x1000 + 4 * 26) 1 1]"

definition c2_pulse :: "clic_op list" where
  "c2_pulse = [Set_irq 25 0, Set_irq 25 1]"

text \<open>The same scenario in the order of the qtest: the pending bytes are written before
  the control and enable bytes.\<close>

definition c2_test_order :: "clic_op list" where
  "c2_test_order =
    [Mmio_write 3 0 1 1,
     Mmio_write 3 (0x1000 + 4 * 25 + 2) 0xc3 1,
     Mmio_write 3 (0x1000 + 4 * 26 + 2) 0xc3 1,
     Mmio_write 3 (0x1000 + 4 * 25) 1 1,
     Mmio_write 3 (0x1000 + 4 * 26) 1 1,
     Mmio_write 3 (0x1000 + 4 * 25 + 3) 0xbf 1,
     Mmio_write 3 (0x1000 + 4 * 26 + 3) 0x3f 1,
     Mmio_write 3 (0x1000 + 4 * 25 + 1) 1 1,
     Mmio_write 3 (0x1000 + 4 * 26 + 1) 1 1,
     Set_irq 25 1]"

text \<open>What the scenario observes: the two enable bytes, the two pending bytes, the
  \<open>irq\<close> field (bits 0 to 11) of the cause word, and the log of the CPU line.\<close>

definition c2_view :: "RISCVCLICState \<Rightarrow> (u8 \<times> u8) \<times> (u8 \<times> u8) \<times> u32 \<times> irq_level list" where
  "c2_view s = ((clicintie s ! 25, clicintie s ! 26), (clicintip s ! 25, clicintip s ! 26),
                exccode s AND 0xfff, cpu_irq s)"

text \<open>A 32-input CLIC with three implemented control bits.\<close>

definition c3_state :: RISCVCLICState where
  "c3_state = riscv_clic_realize 32 3 False False False"

text \<open>Interrupt 12 configured M-mode, positive level, vectored (\<open>attr = 0xC1\<close>).\<close>

definition c4_state :: RISCVCLICState where
  "c4_state = (riscv_clic_realize 32 8 False False False)\<lparr>clicintattr := (replicate 32 0)[12 := 0xc1]\<rparr>"

text \<open>The enable bytes and control bytes of interrupts 5, 6 and 7, and the active list.\<close>

definition c5_view :: "RISCVCLICState \<Rightarrow> u8 list \<times> u8 list \<times> CLICActiveInterrupt list" where
  "c5_view s = (map (\<lambda>i. clicintie s ! i) [5, 6, 7], map (\<lambda>i. clicintctl s ! i) [5, 6, 7], active_list s)"

text \<open>
  The UART after the guest wrote 1 to IER (receive interrupt enabled) and \<open>0x41\<close> to
  FCR (FIFO enabled, \<open>fcr[7:6] = 01\<close>: trigger level 4).
\<close>

definition uart_fifo4 :: thead_uart_state where
  "uart_fifo4 = thead_uart_write (thead_uart_write thead_uart_init 4 1 4) 8 0x41 4"

definition uart_view :: "thead_uart_state \<Rightarrow> int \<times> int \<times> u32 \<times> u32 \<times> int list" where
  "uart_view s = (rx_trigger s, rx_count s, iir s AND 0xf, lsr s AND lsr_DR, uart_irq s)"

text \<open>
  Multi-byte accesses on an eight-input CLIC: first make interrupt 5 edge-triggered
  (a byte write of \<open>0x02\<close> to its attribute, stored as \<open>0xC2\<close>), then run \<open>ops\<close>.
  \<open>c8_view\<close> shows the four bytes of interrupt 5 and the log of the CPU line.
\<close>

definition c8_view :: "RISCVCLICState \<Rightarrow> (u8 \<times> u8 \<times> u8 \<times> u8) \<times> irq_level list" where
  "c8_view s = ((clicintip s ! 5, clicintie s ! 5, clicintattr s ! 5, clicintctl s ! 5), cpu_irq s)"

definition c8_run :: "clic_op list \<Rightarrow> RISCVCLICState result" where
  "c8_run ops = clic_run (riscv_clic_realize 8 8 False False False)
                  (map (Pair (ctx_m False)) (Mmio_write 3 (0x1000 + 4 * 5 + 2) 0x02 1 # ops))"

definition c8_read :: "nat \<Rightarrow> nat \<Rightarrow> RISCVCLICState \<Rightarrow> u64 result" where
  "c8_read addr sz s = riscv_clic_read (ctx_m False) 3 s addr sz"

section \<open>Timer: results\<close>

lemma timer_arrays_ok_toggle:
  "timer_arrays_ok (toggle_ctrl_mode s index) = timer_arrays_ok s"
  by (simp add: timer_arrays_ok_def toggle_ctrl_mode_def)

text \<open>
  Claim C9. \<^verbatim>\<open>thead_timer_reload\<close> agrees with the simplified version that always
  takes \<^verbatim>\<open>s->limit[index]\<close>, for every timer state, channel index and reload flag;
  and the timers it programs do not depend on the \<^verbatim>\<open>TIMER_CTRL_MODE\<close> bit of
  \<^verbatim>\<open>control[index]\<close>: flipping that bit first changes nothing in the programmed
  timers, and the two runs succeed or fail together.
\<close>

theorem thead_timer_reload_ignores_mode:
  "thead_timer_reload f s reload index = thead_timer_reload_simplified f s reload index \<and>
   map_option timer (thead_timer_reload f (toggle_ctrl_mode s index) reload index)
     = map_option timer (thead_timer_reload f s reload index)"
  by (simp add: thead_timer_reload_def thead_timer_reload_simplified_def
      timer_arrays_ok_toggle)
    (simp add: toggle_ctrl_mode_def)

theorem thead_timer_reload_ignores_mode_witness:
  "thead_timer_reload (\<lambda>p l r. if r \<noteq> 0 then l else p)
     \<lparr>timer = [0, 0, 0, 0], control = [0, 2, 0, 0], limit = [5, 6, 7, 8],
      freq = [1, 1, 1, 1], int_level = [0, 0, 0, 0]\<rparr> 1 1
   = Some \<lparr>timer = [0, 6, 0, 0], control = [0, 2, 0, 0], limit = [5, 6, 7, 8],
      freq = [1, 1, 1, 1], int_level = [0, 0, 0, 0]\<rparr>"
  using thead_timer_reload_ignores_mode
    [of "\<lambda>p l r. if r \<noteq> 0 then l else p"
        "\<lparr>timer = [0, 0, 0, 0], control = [0, 2, 0, 0], limit = [5, 6, 7, 8],
          freq = [1, 1, 1, 1], int_level = [0, 0, 0, 0]\<rparr>" 1 1]
  by (simp add: thead_timer_reload_simplified_def timer_arrays_ok_def)

section \<open>CLIC: what arbitration leaves unchanged\<close>

lemma same_config_refl [simp]: "same_config c c"
  by (simp add: same_config_def)

lemma same_config_trans: "same_config a b \<Longrightarrow> same_config b c \<Longrightarrow> same_config a c"
  unfolding same_config_def
  by (metis (no_types, lifting) RISCVCLICState.surjective RISCVCLICState.update_convs(14,21,23))

lemma post_interrupt_ip:
  "clicintip (post_interrupt ctx clic a) =
     (if riscv_clic_is_edge_triggered clic (unat (irq a)) \<and> riscv_clic_is_shv_interrupt clic (unat (irq a))
      then (clicintip clic)[unat (irq a) := 0] else clicintip clic)"
  by (simp add: post_interrupt_def Let_def)

lemma post_interrupt_same_config: "same_config clic (post_interrupt ctx clic a)"
  by (simp add: post_interrupt_def Let_def same_config_def)

lemma scan_active_result:
  "scan_active ctx env clic xs = Inr clic' \<Longrightarrow>
     clic' = clic \<or> (\<exists>a \<in> set xs. clic' = post_interrupt ctx clic a)"
  by (induction xs) (auto simp: Let_def split: if_splits)

lemma next_interrupt_result:
  "riscv_clic_next_interrupt ctx clic = Inr clic' \<Longrightarrow>
     clic' = clic \<or> (\<exists>a \<in> set (active_list clic). clic' = post_interrupt ctx clic a)"
  by (auto simp: riscv_clic_next_interrupt_def split: option.splits dest: scan_active_result)

lemma next_interrupt_same_config:
  "riscv_clic_next_interrupt ctx clic = Inr clic' \<Longrightarrow> same_config clic clic'"
  by (auto dest!: next_interrupt_result simp: post_interrupt_same_config)

section \<open>CLIC: the invariant is kept by every operation\<close>

lemma list_all_update:
  "list_all P xs \<Longrightarrow> P v \<Longrightarrow> list_all P (xs[i := v])"
  using set_update_subset_insert [of xs i v] by (auto simp: list_all_iff)

lemma sorted_desc_qsort [simp]: "sorted_desc (qsort_active xs)"
proof -
  have "sorted (map (\<lambda>a. - int (riscv_clic_encode_priority a)) (qsort_active xs))"
    unfolding qsort_active_def by (rule sorted_sort_key)
  then show ?thesis
    unfolding sorted_desc_def sorted_map by simp
qed

lemma update_intie_shape:
  assumes "riscv_clic_update_intie ctx clic mode i val = Inr clic'"
  shows "\<exists>b xs. (b = 0 \<or> b = 1) \<and>
       riscv_clic_next_interrupt ctx
         (clic\<lparr>clicintie := (clicintie clic)[i := b], active_list := qsort_active xs\<rparr>) = Inr clic'"
proof -
  let ?b = "(if val \<noteq> 0 then 1 else 0) :: u8"
  let ?c = "\<lambda>xs. clic\<lparr>clicintie := (clicintie clic)[i := ?b], active_list := qsort_active xs\<rparr>"
  let ?key = "\<lparr>intcfg = (of_nat (push_bit 8 mode) :: u16) OR ucast (clicintctl clic ! i),
                 irq = (of_nat i :: u16)\<rparr>"
  have b: "?b = 0 \<or> ?b = 1" by simp
  have "\<exists>xs. riscv_clic_next_interrupt ctx (?c xs) = Inr clic'"
  proof (cases "val \<noteq> 0 \<and> clicintie clic ! i = 0")
    case True
    have "riscv_clic_next_interrupt ctx (?c (active_list clic @ [?key])) = Inr clic'"
      using assms True by (simp add: riscv_clic_update_intie_def Let_def split: if_splits)
    then show ?thesis ..
  next
    case False
    note nadd = this
    show ?thesis
    proof (cases "val = 0 \<and> clicintie clic ! i \<noteq> 0")
      case True
      then obtain elem where
        "riscv_clic_next_interrupt ctx (?c (remove_active (active_list clic) elem)) = Inr clic'"
        using assms
        by (cases "bsearch_active ?key (active_list clic) 0 (length (active_list clic))")
           (simp_all add: riscv_clic_update_intie_def Let_def)
      then show ?thesis ..
    next
      case False
      have "riscv_clic_next_interrupt ctx (?c (active_list clic)) = Inr clic'"
        using assms nadd False by (simp add: riscv_clic_update_intie_def Let_def) 
      then show ?thesis ..
    qed
  qed
  then obtain xs where xs: "riscv_clic_next_interrupt ctx (?c xs) = Inr clic'" ..
  from b xs show ?thesis by (intro exI conjI)
qed

lemma write_clicintattr_shape:
  assumes "write_clicintattr ctx clic i val = Inr clic'"
  shows "clic' = clic \<or>
     (\<exists>v. riscv_clic_next_interrupt ctx (clic\<lparr>clicintattr := (clicintattr clic)[i := v]\<rparr>) = Inr clic')"
proof -
  from assms obtain eff where eff: "riscv_clic_effective_mode clic (ucast val) = Inr eff"
    unfolding write_clicintattr_def by (cases "riscv_clic_effective_mode clic (ucast val)") auto
  define val1 where "val1 = set_field_mode64 val (if unat eff = 2
                            then intattr_mode (clicintattr clic ! i) else eff)"
  from assms eff obtain valid where valid: "riscv_clic_validate_intattr ctx (ucast val1) = Inr valid"
    unfolding write_clicintattr_def Let_def val1_def
    by (cases "riscv_clic_validate_intattr ctx (ucast (set_field_mode64 val (if unat eff = 2
                            then intattr_mode (clicintattr clic ! i) else eff)))") auto
  from assms eff valid have
    "(if valid \<and> ucast (clicintattr clic ! i) \<noteq> val1
      then riscv_clic_next_interrupt ctx (clic\<lparr>clicintattr := (clicintattr clic)[i := ucast val1]\<rparr>)
      else Inr clic) = Inr clic'"
    unfolding write_clicintattr_def Let_def val1_def by simp
  then show ?thesis
    by (cases "valid \<and> ucast (clicintattr clic ! i) \<noteq> val1") auto
qed

lemma write_clicintctl_shape:
  "write_clicintctl ctx clic i val = Inr clic' \<Longrightarrow>
     clic' = clic \<or>
     (\<exists>v. riscv_clic_next_interrupt ctx (clic\<lparr>clicintctl := (clicintctl clic)[i := v]\<rparr>) = Inr clic')"
  unfolding write_clicintctl_def
  by (cases "val \<noteq> ucast (clicintctl clic ! i)") auto

lemma post_interrupt_inv: "clic_inv clic \<Longrightarrow> clic_inv (post_interrupt ctx clic a)"
  by (simp add: clic_inv_def post_interrupt_def Let_def arrays_ok_def ip_ie_boolean_def
      list_all_update)

lemma next_interrupt_inv:
  "riscv_clic_next_interrupt ctx clic = Inr clic' \<Longrightarrow> clic_inv clic \<Longrightarrow> clic_inv clic'"
  by (auto dest!: next_interrupt_result simp: post_interrupt_inv)

lemma inv_set_ip:
  "clic_inv clic \<Longrightarrow> b = 0 \<or> b = 1 \<Longrightarrow> clic_inv (clic\<lparr>clicintip := (clicintip clic)[i := b]\<rparr>)"
  by (simp add: clic_inv_def arrays_ok_def ip_ie_boolean_def list_all_update)

lemma inv_set_ie:
  "clic_inv clic \<Longrightarrow> b = 0 \<or> b = 1 \<Longrightarrow>
     clic_inv (clic\<lparr>clicintie := (clicintie clic)[i := b], active_list := qsort_active xs\<rparr>)"
  by (simp add: clic_inv_def arrays_ok_def ip_ie_boolean_def list_all_update)

lemma inv_set_attr:
  "clic_inv clic \<Longrightarrow> clic_inv (clic\<lparr>clicintattr := (clicintattr clic)[i := v]\<rparr>)"
  by (simp add: clic_inv_def arrays_ok_def ip_ie_boolean_def)

lemma inv_set_ctl:
  "clic_inv clic \<Longrightarrow> clic_inv (clic\<lparr>clicintctl := (clicintctl clic)[i := v]\<rparr>)"
  by (simp add: clic_inv_def arrays_ok_def ip_ie_boolean_def)

lemma update_intip_inv:
  "clic_inv clic \<Longrightarrow> riscv_clic_update_intip ctx clic i val = Inr clic' \<Longrightarrow> clic_inv clic'"
  unfolding riscv_clic_update_intip_def
  by (rule next_interrupt_inv, assumption, rule inv_set_ip) simp_all

lemma update_intie_inv:
  assumes "clic_inv clic" and "riscv_clic_update_intie ctx clic mode i val = Inr clic'"
  shows "clic_inv clic'"
proof -
  from update_intie_shape [OF assms(2)] obtain b xs where b: "b = 0 \<or> b = 1"
    and n: "riscv_clic_next_interrupt ctx
         (clic\<lparr>clicintie := (clicintie clic)[i := b], active_list := qsort_active xs\<rparr>) = Inr clic'"
    by auto
  from n inv_set_ie [OF assms(1) b] show ?thesis by (rule next_interrupt_inv)
qed

lemma write_clicintattr_inv:
  assumes "clic_inv clic" and "write_clicintattr ctx clic i val = Inr clic'"
  shows "clic_inv clic'"
  using write_clicintattr_shape [OF assms(2)]
proof
  assume "clic' = clic" with assms(1) show ?thesis by simp
next
  assume "\<exists>v. riscv_clic_next_interrupt ctx (clic\<lparr>clicintattr := (clicintattr clic)[i := v]\<rparr>) = Inr clic'"
  then obtain v where "riscv_clic_next_interrupt ctx (clic\<lparr>clicintattr := (clicintattr clic)[i := v]\<rparr>) = Inr clic'" ..
  then show ?thesis using inv_set_attr [OF assms(1)] by (rule next_interrupt_inv)
qed

lemma write_clicintctl_inv:
  assumes "clic_inv clic" and "write_clicintctl ctx clic i val = Inr clic'"
  shows "clic_inv clic'"
  using write_clicintctl_shape [OF assms(2)]
proof
  assume "clic' = clic" with assms(1) show ?thesis by simp
next
  assume "\<exists>v. riscv_clic_next_interrupt ctx (clic\<lparr>clicintctl := (clicintctl clic)[i := v]\<rparr>) = Inr clic'"
  then obtain v where "riscv_clic_next_interrupt ctx (clic\<lparr>clicintctl := (clicintctl clic)[i := v]\<rparr>) = Inr clic'" ..
  then show ?thesis using inv_set_ctl [OF assms(1)] by (rule next_interrupt_inv)
qed

lemma hart_write_preserves:
  assumes ip: "\<And>ctx clic i val clic'. P clic \<Longrightarrow> riscv_clic_update_intip ctx clic i val = Inr clic' \<Longrightarrow> P clic'"
    and ie: "\<And>ctx clic mode i val clic'. P clic \<Longrightarrow> riscv_clic_update_intie ctx clic mode i val = Inr clic' \<Longrightarrow> P clic'"
    and attr: "\<And>ctx clic i val clic'. P clic \<Longrightarrow> write_clicintattr ctx clic i val = Inr clic' \<Longrightarrow> P clic'"
    and ctl: "\<And>ctx clic i val clic'. P clic \<Longrightarrow> write_clicintctl ctx clic i val = Inr clic' \<Longrightarrow> P clic'"
  shows "P clic \<Longrightarrow> riscv_clic_hart_write ctx clic addr val sz mode i = Inr clic' \<Longrightarrow> P clic'"
    and "P clic \<Longrightarrow> hart_write_loop ctx clic addr val k width mode i = Inr clic' \<Longrightarrow> P clic'"
proof (induction ctx clic addr val sz mode i and ctx clic addr val k width mode i
    arbitrary: clic' and clic' rule: riscv_clic_hart_write_hart_write_loop.induct)
  case (1 ctx clic addr val sz mode i)
  show ?case
  proof (cases "i \<ge> num_sources clic")
    case True
    with "1.prems" show ?thesis by (simp add: riscv_clic_hart_write.simps)
  next
    case inr: False
    consider (r0) "addr mod 4 = 0" | (r1) "addr mod 4 = 1" | (r2) "addr mod 4 = 2"
      | (r3) "addr mod 4 \<noteq> 0 \<and> addr mod 4 \<noteq> 1 \<and> addr mod 4 \<noteq> 2" by blast
    then show ?thesis
    proof cases
      case r0
      let ?first = "if riscv_clic_validate_intip clic i \<and> val \<noteq> ucast (clicintip clic ! i)
                  then riscv_clic_update_intip ctx clic i val else Inr clic"
      from "1.prems"(2) inr r0 obtain clic1 where first: "?first = Inr clic1"
        by (cases ?first) (simp_all add: Let_def riscv_clic_hart_write.simps)
      have P1: "P clic1"
        using first "1.prems"(1) ip by (auto split: if_splits)
      show ?thesis
      proof (cases "sz > 1")
        case True
        with "1.prems"(2) inr r0 first
        have "hart_write_loop ctx clic1 addr val 1 (min sz 4) mode i = Inr clic'"
          by (simp add: Let_def riscv_clic_hart_write.simps)
        with "1.IH" [OF refl inr r0 first True P1] show ?thesis .
      next
        case False
        with "1.prems"(2) inr r0 first have "clic' = clic1"
          by (simp add: Let_def riscv_clic_hart_write.simps)
        with P1 show ?thesis by simp
      qed
    next
      case r1
      with "1.prems" inr ie show ?thesis
        by (auto simp: Let_def riscv_clic_hart_write.simps split: if_splits)
    next
      case r2
      with "1.prems" inr attr show ?thesis by (auto simp: Let_def riscv_clic_hart_write.simps)
    next
      case r3
      with "1.prems" inr ctl show ?thesis by (auto simp: Let_def riscv_clic_hart_write.simps)
    qed
  qed
next
  case (2 ctx clic addr val k width mode i)
  show ?case
  proof (cases "k < width")
    case True
    let ?w = "riscv_clic_hart_write ctx clic (addr + k) (drop_bit (k * 8) val AND 0xFF) 1 mode i"
    from "2.prems"(2) True obtain clic1 where w: "?w = Inr clic1"
      by (cases ?w) (simp_all add: hart_write_loop.simps)
    from "2.IH"(1) [OF True "2.prems"(1) w] have P1: "P clic1" .
    from "2.prems"(2) True w have "hart_write_loop ctx clic1 addr val (k + 1) width mode i = Inr clic'"
      by (simp add: hart_write_loop.simps)
    with "2.IH"(2) [OF True w P1] show ?thesis .
  next
    case False
    with "2.prems" show ?thesis by (simp add: hart_write_loop.simps)
  qed
qed

lemma hart_write_inv:
  "clic_inv clic \<Longrightarrow> riscv_clic_hart_write ctx clic addr val sz mode i = Inr clic' \<Longrightarrow> clic_inv clic'"
  by (rule hart_write_preserves(1) [where P = clic_inv,
        OF update_intip_inv update_intie_inv write_clicintattr_inv write_clicintctl_inv])

lemma write_cliccfg_inv: "clic_inv (write_cliccfg clic mode val) = clic_inv clic"
  by (simp add: write_cliccfg_def Let_def clic_inv_def arrays_ok_def ip_ie_boolean_def)

lemma write_clicinttrig_inv: "clic_inv (write_clicinttrig clic index val) = clic_inv clic"
  by (simp add: write_clicinttrig_def Let_def clic_inv_def arrays_ok_def ip_ie_boolean_def)

lemma mintthresh_inv: "clic_inv (clic\<lparr>mintthresh := v\<rparr>) = clic_inv clic"
  by (simp add: clic_inv_def arrays_ok_def ip_ie_boolean_def)

lemma riscv_clic_write_config_shape:
  assumes "cpu ctx = Some env" and "addr < CLIC_INTCTL_BASE"
    and "riscv_clic_write ctx mode clic addr val sz = Inr clic'"
  shows "clic' = clic \<or> clic' = write_cliccfg clic mode val \<or>
         clic' = write_clicinttrig clic (addr div 4) val \<or>
         clic' = clic\<lparr>mintthresh := ucast val\<rparr>"
  using assms(3) unfolding riscv_clic_write_def Let_def
  by (simp add: assms(1,2) split: if_splits)

lemma riscv_clic_write_irq_shape:
  assumes "cpu ctx = Some env" and "\<not> addr < CLIC_INTCTL_BASE"
    and "riscv_clic_write ctx mode clic addr val sz = Inr clic'"
  shows "clic' = clic \<or>
         riscv_clic_hart_write ctx clic (addr - CLIC_INTCTL_BASE) val sz mode
           (riscv_clic_get_irq (addr - CLIC_INTCTL_BASE)) = Inr clic'"
  using assms(3) unfolding riscv_clic_write_def Let_def
  by (simp add: assms(1,2) split: if_splits sum.splits)

lemma riscv_clic_write_inv:
  assumes "clic_inv clic" and "riscv_clic_write ctx mode clic addr val sz = Inr clic'"
  shows "clic_inv clic'"
proof -
  from assms(2) obtain env where env: "cpu ctx = Some env"
    by (cases "cpu ctx") (simp_all add: riscv_clic_write_def)
  show ?thesis
  proof (cases "addr < CLIC_INTCTL_BASE")
    case True
    from riscv_clic_write_config_shape [OF env True assms(2)] assms(1) show ?thesis
      by (auto simp: write_cliccfg_inv write_clicinttrig_inv mintthresh_inv)
  next
    case False
    from riscv_clic_write_irq_shape [OF env False assms(2)] assms(1) show ?thesis
      by (auto dest: hart_write_inv)
  qed
qed

lemma set_irq_shape:
  "riscv_clic_set_irq ctx clic line level = Inr clic' \<Longrightarrow>
     clic' = clic \<or> (\<exists>v. riscv_clic_update_intip ctx clic line v = Inr clic')"
  unfolding riscv_clic_set_irq_def Let_def
  by (simp split: if_splits) blast+

lemma set_irq_inv:
  assumes "clic_inv clic" and "riscv_clic_set_irq ctx clic line level = Inr clic'"
  shows "clic_inv clic'"
  using set_irq_shape [OF assms(2)] assms(1) by (auto dest: update_intip_inv)

lemma clean_pending_inv:
  assumes "clic_inv clic" and "riscv_clic_clean_pending clic i = Inr clic'"
  shows "clic_inv clic'"
proof -
  from assms(2) have "clic' = clic\<lparr>clicintip := (clicintip clic)[i := 0]\<rparr>"
    by (simp add: riscv_clic_clean_pending_def split: if_splits)
  with inv_set_ip [OF assms(1), of 0 i] show ?thesis by simp
qed

lemma clic_step_inv:
  assumes "clic_inv clic" and "clic_step ctx clic op = Inr clic'"
  shows "clic_inv clic'"
proof (cases op)
  case (Mmio_write mode addr val sz)
  with assms show ?thesis by (simp add: riscv_clic_write_inv)
next
  case (Set_irq line level)
  with assms show ?thesis by (simp add: set_irq_inv)
next
  case (Clean_pending i)
  with assms show ?thesis by (simp add: clean_pending_inv)
next
  case Get_next_interrupt
  with assms show ?thesis
    by (simp add: riscv_clic_get_next_interrupt_def next_interrupt_inv)
qed

lemma clic_run_inv:
  "clic_inv clic \<Longrightarrow> clic_run clic ops = Inr clic' \<Longrightarrow> clic_inv clic'"
proof (induction ops arbitrary: clic)
  case Nil
  then show ?case by simp
next
  case (Cons cop ops)
  obtain ctx op where cop: "cop = (ctx, op)" by (cases cop)
  from Cons.prems(2) cop obtain clic1 where step: "clic_step ctx clic op = Inr clic1"
    and run: "clic_run clic1 ops = Inr clic'"
    by (cases "clic_step ctx clic op") simp_all
  from Cons.prems(1) step have "clic_inv clic1" by (rule clic_step_inv)
  then show ?case using run by (rule Cons.IH)
qed

lemma realize_inv: "clic_inv (riscv_clic_realize n b s u j)"
  by (simp add: riscv_clic_realize_def clic_inv_def arrays_ok_def ip_ie_boolean_def
      sorted_desc_def list_all_iff)

section \<open>CLIC: pending and enable bytes are boolean\<close>

lemmas clic_eval_defs = riscv_clic_write_def Let_def ctx_m_def riscv_clic_realize_def
  riscv_clic_check_visible_def riscv_clic_hart_write.simps hart_write_loop.simps write_cliccfg_def
  write_clicintattr_def write_clicintctl_def riscv_clic_effective_mode_def
  riscv_clic_validate_intattr_def riscv_clic_next_interrupt_def intattr_mode_def
  set_field_mode64_def riscv_clic_get_irq_def riscv_clic_update_intie_def
  riscv_clic_update_intip_def riscv_clic_set_irq_def qsort_active_def
  riscv_clic_encode_priority_def intcfg_mode_def intcfg_level_def
  riscv_clic_get_interrupt_level_def il_thresholds_def post_interrupt_def
  riscv_clic_is_edge_triggered_def riscv_clic_is_shv_interrupt_def
  riscv_clic_get_trigger_type_def riscv_clic_validate_intip_def encode_exccode_def
  riscv_clic_clean_pending_def riscv_clic_get_next_interrupt_def
  riscv_clic_read_def riscv_clic_hart_read.simps hart_read_loop.simps set_field_mode8_def
  read_cliccfg_def

lemma hart_read_ip_ie:
  assumes "clic_inv clic" and "r < 2"
    and "riscv_clic_hart_read clic (4 * i + r) 1 mode i = Inr v"
  shows "v = 0 \<or> v = 1"
proof (cases "i \<ge> num_sources clic")
  case True
  with assms(3) show ?thesis by (simp add: riscv_clic_hart_read.simps)
next
  case False
  then have len: "i < length (clicintip clic)" "i < length (clicintie clic)"
    using assms(1) by (simp_all add: clic_inv_def arrays_ok_def)
  from assms(1) len have ip: "clicintip clic ! i = 0 \<or> clicintip clic ! i = 1"
    and ie: "clicintie clic ! i = 0 \<or> clicintie clic ! i = 1"
    by (simp_all add: clic_inv_def ip_ie_boolean_def list_all_length)
  from assms(2) have "r = 0 \<or> r = 1" by auto
  then show ?thesis
  proof
    assume "r = 0"
    with assms(3) False have "v = ucast (clicintip clic ! i)"
      by (simp add: riscv_clic_hart_read.simps Let_def)
    with ip show ?thesis by auto
  next
    assume "r = 1"
    with assms(3) False have "v = ucast (clicintie clic ! i)"
      by (simp add: riscv_clic_hart_read.simps Let_def)
    with ie show ?thesis by auto
  qed
qed

lemma riscv_clic_read_irq_shape:
  assumes "\<not> addr < CLIC_INTCTL_BASE"
    and "riscv_clic_read ctx mode clic addr sz = Inr v"
  shows "v = 0 \<or>
         riscv_clic_hart_read clic (addr - CLIC_INTCTL_BASE) sz mode
           (riscv_clic_get_irq (addr - CLIC_INTCTL_BASE)) = Inr v"
  using assms(2) unfolding riscv_clic_read_def Let_def
  by (simp add: assms(1) split: if_splits sum.splits option.splits)

text \<open>
  Claim C10. Start from the state \<^verbatim>\<open>riscv_clic_realize\<close> leaves and let any sequence of
  operations return: memory-mapped writes through any view, of any value and size,
  input-line events, \<^verbatim>\<open>riscv_clic_clean_pending\<close> and
  \<^verbatim>\<open>riscv_clic_get_next_interrupt\<close>, each in any hart context. Then every stored
  \<^verbatim>\<open>clicintip[i]\<close> and \<^verbatim>\<open>clicintie[i]\<close> byte is 0 or 1, and a one-byte read of
  \<^verbatim>\<open>clicintip[i]\<close> or \<^verbatim>\<open>clicintie[i]\<close> through any view returns 0 or 1.
\<close>

theorem pending_enable_bytes_boolean:
  assumes "clic_run (riscv_clic_realize n b s u j) ops = Inr clic"
  shows "(\<forall>i < num_sources clic.
            (clicintip clic ! i = 0 \<or> clicintip clic ! i = 1) \<and>
            (clicintie clic ! i = 0 \<or> clicintie clic ! i = 1)) \<and>
         (\<forall>ctx mode i r v. r < 2 \<longrightarrow>
            riscv_clic_read ctx mode clic (CLIC_INTCTL_BASE + 4 * i + r) 1 = Inr v \<longrightarrow>
            v = 0 \<or> v = 1)"
proof -
  from realize_inv assms have inv: "clic_inv clic" by (rule clic_run_inv)
  have bytes: "\<forall>i < num_sources clic.
            (clicintip clic ! i = 0 \<or> clicintip clic ! i = 1) \<and>
            (clicintie clic ! i = 0 \<or> clicintie clic ! i = 1)"
    using inv by (simp add: clic_inv_def arrays_ok_def ip_ie_boolean_def list_all_length)
  have reads: "v = 0 \<or> v = 1"
    if r: "r < 2" and rd: "riscv_clic_read ctx mode clic (CLIC_INTCTL_BASE + 4 * i + r) 1 = Inr v"
    for ctx mode i r v
  proof -
    have irq: "riscv_clic_get_irq (4 * i + r) = i"
      using r by (simp add: riscv_clic_get_irq_def)
    from riscv_clic_read_irq_shape [OF _ rd] irq
    have "v = 0 \<or> riscv_clic_hart_read clic (4 * i + r) 1 mode i = Inr v" by simp
    then show ?thesis using hart_read_ip_ie [OF inv r] by blast
  qed
  from bytes reads show ?thesis by blast
qed

lemma c10_run:
  "map_sum id (\<lambda>s. (clicintip s ! 3, clicintie s ! 3)) (clic_run (riscv_clic_realize 4 8 False False False) c10_ops) =
     Inr (1, 1)"
  by (simp add: c10_ops_def clic_eval_defs)

theorem pending_enable_bytes_boolean_witness:
  "\<exists>clic. clic_run (riscv_clic_realize 4 8 False False False) c10_ops = Inr clic \<and>
     clicintip clic ! 3 = 1 \<and> clicintie clic ! 3 = 1 \<and> num_sources clic = 4 \<and>
     riscv_clic_read (ctx_m False) 3 clic (0x1000 + 4 * 3 + 1) 1 = Inr 1"
proof -
  from c10_run obtain clic where run: "clic_run (riscv_clic_realize 4 8 False False False) c10_ops = Inr clic"
    and ip: "clicintip clic ! 3 = 1" and ie: "clicintie clic ! 3 = 1"
    by (cases "clic_run (riscv_clic_realize 4 8 False False False) c10_ops") auto
  have rd: "map_sum id (\<lambda>s. (num_sources s, riscv_clic_read (ctx_m False) 3 s (0x1000 + 4 * 3 + 1) 1))
          (clic_run (riscv_clic_realize 4 8 False False False) c10_ops) = Inr (4, Inr 1)"
    by (simp add: c10_ops_def clic_eval_defs)
  with run have n: "num_sources clic = 4"
    and r: "riscv_clic_read (ctx_m False) 3 clic (0x1000 + 4 * 3 + 1) 1 = Inr 1" by simp_all
  from pending_enable_bytes_boolean [OF run] n have "clicintip clic ! 3 = 0 \<or> clicintip clic ! 3 = 1"
    by simp
  with run ip ie n r show ?thesis by blast
qed

section \<open>CLIC: the arbitration scan\<close>

lemma unat_and_ff: "unat (x AND 0xff :: u32) = unat x mod 256"
proof -
  have "x AND 0xff = take_bit 8 x"
    by (simp add: take_bit_eq_mask mask_eq_exp_minus_1)
  then show ?thesis by (simp add: unsigned_take_bit_eq take_bit_eq_mod unat_mod_distrib)
qed

lemma il_thresholds_spec:
  "m < 4 \<Longrightarrow> il_thresholds env clic ! m = spec_il env clic m"
proof -
  assume "m < 4"
  then consider "m = 0" | "m = 1" | "m = 2" | "m = 3" by linarith
  then show ?thesis
    by cases (simp_all add: il_thresholds_def spec_il_def unat_and_ff)
qed

lemma scan_active_find:
  assumes "list_all (\<lambda>a. unat (irq a) < length (clicintip clic) \<and> unat (intcfg_mode (intcfg a)) < 4) xs"
  shows "scan_active ctx env clic xs =
     (case find (is_pending clic) (takeWhile (\<lambda>a. \<not> ends_scan env clic a) xs) of
        None \<Rightarrow> Inr clic
      | Some a \<Rightarrow> Inr (post_interrupt ctx clic a))"
  using assms
proof (induction xs)
  case Nil
  then show ?case by simp
next
  case (Cons a xs)
  from Cons.prems have a: "unat (irq a) < length (clicintip clic)"
    and m: "unat (intcfg_mode (intcfg a)) < 4" and rest: "list_all (\<lambda>a. unat (irq a) < length (clicintip clic) \<and> unat (intcfg_mode (intcfg a)) < 4) xs"
    by simp_all
  note IH = Cons.IH [OF rest]
  show ?case
  proof (cases "ends_scan env clic a")
    case True
    then have "scan_active ctx env clic (a # xs) = Inr clic"
      using m il_thresholds_spec [OF m]
      by (auto simp: ends_scan_def Let_def)
    with True show ?thesis by simp
  next
    case False
    then have stop: "\<not> unat (intcfg_mode (intcfg a)) < priv env"
      and lvl: "\<not> (unat (intcfg_mode (intcfg a)) = priv env \<and>
             unat (intcfg_level clic (intcfg a)) < il_thresholds env clic ! unat (intcfg_mode (intcfg a)))"
      using il_thresholds_spec [OF m] by (auto simp: ends_scan_def)
    show ?thesis
    proof (cases "is_pending clic a")
      case True
      then have "scan_active ctx env clic (a # xs) = Inr (post_interrupt ctx clic a)"
        using stop lvl a m by (auto simp: is_pending_def Let_def)
      with True False show ?thesis by simp
    next
      case np: False
      then have "scan_active ctx env clic (a # xs) = scan_active ctx env clic xs"
        using stop lvl a m by (auto simp: is_pending_def Let_def)
      with np False IH show ?thesis by simp
    qed
  qed
qed








text \<open>
  Claim C2 as stated fails: at the end of the scenario \<open>ip[26]\<close> is 0, not 1, and the CPU
  line has been raised three times, not once.
\<close>

theorem vectored_edge_scenario_counterexample:
  "map_sum id c2_view
     (clic_run (riscv_clic_realize 32 8 False False False)
        (map (Pair (ctx_m True)) (c2_setup @ c2_set_pending @ c2_pulse)))
   = Inr ((1, 1), (0, 0), 0,
          [Qtest_encode_irq 25 1, Qtest_encode_irq 26 1, Qtest_encode_irq 25 1])"
  by (simp add: c2_setup_def c2_set_pending_def c2_pulse_def c2_view_def clic_eval_defs)

text \<open>
  Claim C2, as amended. After the setup both interrupts are enabled, nothing is pending
  and the CPU line has not been raised. Each of the two software writes of a pending
  byte is arbitrated at once: interrupt 25 and then interrupt 26 is delivered and its
  pending byte cleared (vectored edge). The pulse on line 25 then raises the CPU line
  exactly once more, for interrupt 25: at the end the line has been raised three times,
  the cause word's \<open>irq\<close> field is 25 outside qtest (under qtest the cause word is
  never written and the line carries \<^verbatim>\<open>qtest_encode_irq(25, 1)\<close>), and \<open>ip[25]\<close> and
  \<open>ip[26]\<close> are both 0.
\<close>

theorem vectored_edge_scenario:
  "map_sum id c2_view
     (clic_run (riscv_clic_realize 32 8 False False False) (map (Pair (ctx_m False)) c2_setup))
   = Inr ((1, 1), (0, 0), 0, []) \<and>
   map_sum id c2_view
     (clic_run (riscv_clic_realize 32 8 False False False)
        (map (Pair (ctx_m False)) (c2_setup @ c2_set_pending)))
   = Inr ((1, 1), (0, 0), 26, [Level 1, Level 1]) \<and>
   map_sum id c2_view
     (clic_run (riscv_clic_realize 32 8 False False False)
        (map (Pair (ctx_m False)) (c2_setup @ c2_set_pending @ c2_pulse)))
   = Inr ((1, 1), (0, 0), 25, [Level 1, Level 1, Level 1]) \<and>
   map_sum id c2_view
     (clic_run (riscv_clic_realize 32 8 False False False)
        (map (Pair (ctx_m True)) (c2_setup @ c2_set_pending)))
   = Inr ((1, 1), (0, 0), 0, [Qtest_encode_irq 25 1, Qtest_encode_irq 26 1]) \<and>
   map_sum id c2_view
     (clic_run (riscv_clic_realize 32 8 False False False)
        (map (Pair (ctx_m True)) (c2_setup @ c2_set_pending @ c2_pulse)))
   = Inr ((1, 1), (0, 0), 0,
          [Qtest_encode_irq 25 1, Qtest_encode_irq 26 1, Qtest_encode_irq 25 1])"
  by (simp add: c2_setup_def c2_set_pending_def c2_pulse_def c2_view_def clic_eval_defs)

text \<open>In the order of the qtest the end is the same: enabling interrupt 25 delivers it,
  enabling interrupt 26 delivers it, and the rising line delivers 25 again.\<close>

lemma vectored_edge_scenario_test_order:
  "map_sum id c2_view
     (clic_run (riscv_clic_realize 32 8 False False False) (map (Pair (ctx_m True)) c2_test_order))
   = Inr ((1, 1), (0, 0), 0,
          [Qtest_encode_irq 25 1, Qtest_encode_irq 26 1, Qtest_encode_irq 25 1])"
  by (simp add: c2_test_order_def c2_view_def clic_eval_defs)

section \<open>CLIC: register writes and read-back\<close>

lemma same_config_fields:
  assumes "same_config c c'"
  shows "clicintctl c' = clicintctl c" "clicintattr c' = clicintattr c"
    "clicintie c' = clicintie c" "num_sources c' = num_sources c"
    "clic_size c' = clic_size c" "clicintctlbits c' = clicintctlbits c"
    "prv_s c' = prv_s c" "prv_u c' = prv_u c" "nmbits c' = nmbits c"
    "active_list c' = active_list c" "mnlbits c' = mnlbits c"
proof -
  from assms have e: "c' = c\<lparr>clicintip := clicintip c', exccode := exccode c', cpu_irq := cpu_irq c'\<rparr>"
    by (simp add: same_config_def)
  show "clicintctl c' = clicintctl c" by (subst e) simp
  show "clicintattr c' = clicintattr c" by (subst e) simp
  show "clicintie c' = clicintie c" by (subst e) simp
  show "num_sources c' = num_sources c" by (subst e) simp
  show "clic_size c' = clic_size c" by (subst e) simp
  show "clicintctlbits c' = clicintctlbits c" by (subst e) simp
  show "prv_s c' = prv_s c" by (subst e) simp
  show "prv_u c' = prv_u c" by (subst e) simp
  show "nmbits c' = nmbits c" by (subst e) simp
  show "active_list c' = active_list c" by (subst e) simp
  show "mnlbits c' = mnlbits c" by (subst e) simp
qed

lemma next_interrupt_total:
  assumes "active_in_range clic"
  shows "\<exists>clic'. riscv_clic_next_interrupt ctx clic = Inr clic'"
proof (cases "cpu ctx")
  case None
  then show ?thesis by (simp add: riscv_clic_next_interrupt_def)
next
  case (Some env)
  from assms have "scan_active ctx env clic (active_list clic) =
     (case find (is_pending clic) (takeWhile (\<lambda>a. \<not> ends_scan env clic a) (active_list clic)) of
        None \<Rightarrow> Inr clic
      | Some a \<Rightarrow> Inr (post_interrupt ctx clic a))"
    unfolding active_in_range_def by (rule scan_active_find)
  with Some show ?thesis
    by (simp add: riscv_clic_next_interrupt_def split: option.splits)
qed

lemma check_visible_same_config:
  assumes "same_config c c'"
  shows "riscv_clic_check_visible c' mode i = riscv_clic_check_visible c mode i"
  unfolding riscv_clic_check_visible_def same_config_fields [OF assms] by (rule refl)

lemma ucast_u8_u64_u8 [simp]: "(ucast (ucast (w :: u8) :: u64) :: u8) = w"
  by (rule bit_word_eqI) (auto simp: bit_simps)

lemma ucast_u8_u64_inj: "(ucast (a :: u8) :: u64) = ucast (b :: u8) \<Longrightarrow> a = b"
  by (metis ucast_u8_u64_u8)

lemma u8_le_2: "(n :: u8) \<le> 2 \<Longrightarrow> n = 0 \<or> n = 1 \<or> n = 2"
  by (simp add: word_le_nat_alt word_unat_eq_iff) arith

lemma u8_le_1: "(n :: u8) \<le> 1 \<Longrightarrow> n = 0 \<or> n = 1"
  by (simp add: word_le_nat_alt word_unat_eq_iff) arith

lemma check_visible_total:
  assumes "nmbits_in_range clic (nmbits clic)"
  shows "\<exists>b. riscv_clic_check_visible clic mode i = Inr b"
proof -
  consider (m) "\<not> prv_s clic \<and> \<not> prv_u clic" | (msu) "prv_s clic \<and> prv_u clic"
    | (ms) "\<not> (\<not> prv_s clic \<and> \<not> prv_u clic) \<and> \<not> (prv_s clic \<and> prv_u clic)" by blast
  then show ?thesis
  proof cases
    case m
    then show ?thesis by (simp add: riscv_clic_check_visible_def)
  next
    case msu
    with assms have "nmbits clic = 0 \<or> nmbits clic = 1 \<or> nmbits clic = 2"
      by (simp add: nmbits_in_range_def u8_le_2)
    with msu show ?thesis by (auto simp: riscv_clic_check_visible_def)
  next
    case ms
    with assms have "nmbits clic = 0 \<or> nmbits clic = 1"
      by (auto simp: nmbits_in_range_def u8_le_1)
    with ms show ?thesis by (auto simp: riscv_clic_check_visible_def)
  qed
qed

lemma nmbits_write_cliccfg:
  "nmbits (write_cliccfg clic mode val) =
     (if mode = PRV_M \<and> nmbits_in_range clic (cliccfg_nmbits_field val)
      then cliccfg_nmbits_field val else nmbits clic)"
  by (simp add: write_cliccfg_def Let_def nmbits_in_range_def cliccfg_nmbits_field_def)

text \<open>
  Claim C7. A write to \<^verbatim>\<open>cliccfg\<close> through any view, for any configured privilege set,
  returns; when the \<open>nmbits\<close> value it carries is outside the valid range (M only: 0;
  M+S or M+U: at most 1; M+S+U: at most 2) the stored \<open>nmbits\<close> is what it was; when the
  value is in range and the write comes through the M view with the hart in M-mode, it is
  stored. A write through another view never changes \<open>nmbits\<close>.
\<close>

theorem cliccfg_nmbits_validated:
  assumes "cpu ctx = Some env" and "0 < clic_size clic"
  shows "\<exists>clic'. riscv_clic_write ctx mode clic 0 val sz = Inr clic' \<and>
           (\<not> nmbits_in_range clic (cliccfg_nmbits_field val) \<longrightarrow> nmbits clic' = nmbits clic) \<and>
           (nmbits_in_range clic (cliccfg_nmbits_field val) \<and> mode = PRV_M \<and> PRV_M \<le> priv env
              \<longrightarrow> nmbits clic' = cliccfg_nmbits_field val) \<and>
           (mode \<noteq> PRV_M \<longrightarrow> nmbits clic' = nmbits clic)"
proof (cases "mode > priv env")
  case True
  with assms have "riscv_clic_write ctx mode clic 0 val sz = Inr clic"
    by (simp add: riscv_clic_write_def)
  with True show ?thesis by auto
next
  case False
  with assms have "riscv_clic_write ctx mode clic 0 val sz = Inr (write_cliccfg clic mode val)"
    by (simp add: riscv_clic_write_def)
  then show ?thesis by (simp add: nmbits_write_cliccfg)
qed

text \<open>
  Claim C4. When the trigger type of interrupt \<open>i\<close> is positive level or negative level,
  a one-byte write to \<^verbatim>\<open>clicintip[i]\<close>, through any view and with any value, returns and
  leaves the whole CLIC state unchanged. In a wider access that starts at
  \<^verbatim>\<open>clicintip[i]\<close> the pending byte is ignored in the same way: the access does what its
  loop over the following bytes does, and nothing else.
\<close>

theorem level_triggered_intip_write_ignored:
  assumes env: "cpu ctx = Some env"
    and addr: "CLIC_INTCTL_BASE + 4 * i < clic_size clic"
    and len: "i < length (clicintattr clic)"
    and nm: "nmbits_in_range clic (nmbits clic)"
    and trig: "riscv_clic_get_trigger_type clic i = POSITIVE_LEVEL \<or>
               riscv_clic_get_trigger_type clic i = NEG_LEVEL"
  shows "riscv_clic_write ctx mode clic (CLIC_INTCTL_BASE + 4 * i) val 1 = Inr clic \<and>
         riscv_clic_hart_write ctx clic (4 * i) val sz mode i =
           (if 1 < sz \<and> i < num_sources clic
            then hart_write_loop ctx clic (4 * i) val 1 (min sz 4) mode i
            else Inr clic)"
proof -
  from trig have noedge: "\<not> riscv_clic_validate_intip clic i"
    by (auto simp: riscv_clic_validate_intip_def riscv_clic_is_edge_triggered_def)
  have hw: "riscv_clic_hart_write ctx clic (4 * i) val 1 mode i = Inr clic"
    using noedge by (simp add: riscv_clic_hart_write.simps Let_def)
  have wide: "riscv_clic_hart_write ctx clic (4 * i) val sz mode i =
           (if 1 < sz \<and> i < num_sources clic
            then hart_write_loop ctx clic (4 * i) val 1 (min sz 4) mode i
            else Inr clic)"
    using noedge by (simp add: riscv_clic_hart_write.simps Let_def)
  from check_visible_total [OF nm] obtain b where
    vis: "riscv_clic_check_visible clic mode i = Inr b" by blast
  have "riscv_clic_write ctx mode clic (CLIC_INTCTL_BASE + 4 * i) val 1 = Inr clic"
    using env addr len vis hw
    by (simp add: riscv_clic_write_def Let_def riscv_clic_get_irq_def)
  with wide show ?thesis by simp
qed

lemma ctl_padding: "k \<le> 8 \<Longrightarrow> (of_nat (2 ^ k - 1) :: u64) = push_bit k 1 - 1"
  by (simp add: push_bit_eq_mult of_nat_diff)

lemma write_clicintctl_readback:
  assumes rng: "active_in_range clic" and len: "i < length (clicintctl clic)"
  shows "\<exists>clic'. write_clicintctl ctx clic i (ucast (w :: u8)) = Inr clic' \<and>
           same_config (clic\<lparr>clicintctl := (clicintctl clic)[i := w]\<rparr>) clic'"
proof (cases "(ucast w :: u64) \<noteq> ucast (clicintctl clic ! i)")
  case True
  let ?c = "clic\<lparr>clicintctl := (clicintctl clic)[i := w]\<rparr>"
  have "active_in_range ?c" using rng by (simp add: active_in_range_def)
  from next_interrupt_total [OF this] obtain clic' where
    n: "riscv_clic_next_interrupt ctx ?c = Inr clic'" by blast
  then have "same_config ?c clic'" by (rule next_interrupt_same_config)
  moreover from True n have "write_clicintctl ctx clic i (ucast w) = Inr clic'"
    by (simp add: write_clicintctl_def)
  ultimately show ?thesis by blast
next
  case False
  then have "w = clicintctl clic ! i" by (simp add: ucast_u8_u64_inj)
  then have "clic\<lparr>clicintctl := (clicintctl clic)[i := w]\<rparr> = clic" by simp
  moreover from False have "write_clicintctl ctx clic i (ucast w) = Inr clic"
    by (simp add: write_clicintctl_def)
  ultimately show ?thesis by simp
qed

lemma check_visible_ctl_update:
  "riscv_clic_check_visible (clic\<lparr>clicintctl := x\<rparr>) mode i = riscv_clic_check_visible clic mode i"
  by (simp add: riscv_clic_check_visible_def cong: if_cong)

lemma riscv_clic_write_irq:
  assumes "cpu ctx = Some env" and "mode \<le> priv env"
    and "CLIC_INTCTL_BASE + a < clic_size clic"
    and "a div 4 < length (clicintattr clic)"
    and "riscv_clic_check_visible clic mode (a div 4) = Inr True"
  shows "riscv_clic_write ctx mode clic (CLIC_INTCTL_BASE + a) val sz
           = riscv_clic_hart_write ctx clic a val sz mode (a div 4)"
  using assms by (simp add: riscv_clic_write_def Let_def riscv_clic_get_irq_def)

lemma riscv_clic_read_irq:
  assumes "cpu ctx = Some env" and "mode \<le> priv env"
    and "CLIC_INTCTL_BASE + a < clic_size clic"
    and "a div 4 < length (clicintattr clic)"
    and "riscv_clic_check_visible clic mode (a div 4) = Inr True"
  shows "riscv_clic_read ctx mode clic (CLIC_INTCTL_BASE + a) sz
           = riscv_clic_hart_read clic a sz mode (a div 4)"
  using assms by (simp add: riscv_clic_read_def Let_def riscv_clic_get_irq_def)

text \<open>
  Claim C3. For an interrupt \<open>i < num_sources\<close> visible through the view, and any byte
  \<open>w\<close>: the write of \<open>w\<close> to \<^verbatim>\<open>clicintctl[i]\<close> returns, and a read of \<^verbatim>\<open>clicintctl[i]\<close>
  afterwards returns \<open>w | ((1 << (8 - clicintctlbits)) - 1)\<close>.
\<close>

theorem clicintctl_write_readback:
  fixes w :: u8
  assumes env: "cpu ctx = Some env" and gate: "mode \<le> priv env"
    and i: "i < num_sources clic" and arr: "arrays_ok clic" and rng: "active_in_range clic"
    and addr: "CLIC_INTCTL_BASE + 4 * i + 3 < clic_size clic"
    and bits: "clicintctlbits clic \<le> 8"
    and vis: "riscv_clic_check_visible clic mode i = Inr True"
  shows "\<exists>clic'. riscv_clic_write ctx mode clic (CLIC_INTCTL_BASE + 4 * i + 3) (ucast w) 1 = Inr clic' \<and>
           riscv_clic_read ctx mode clic' (CLIC_INTCTL_BASE + 4 * i + 3) 1
             = Inr (ucast w OR (push_bit (8 - clicintctlbits clic) 1 - 1))"
proof -
  from i arr have len: "i < length (clicintctl clic)" "i < length (clicintattr clic)"
    by (simp_all add: arrays_ok_def)
  let ?c = "clic\<lparr>clicintctl := (clicintctl clic)[i := w]\<rparr>"
  let ?a = "4 * i + 3"
  have a: "CLIC_INTCTL_BASE + 4 * i + 3 = CLIC_INTCTL_BASE + ?a" "?a div 4 = i" "?a mod 4 = 3"
    by simp_all
  from write_clicintctl_readback [OF rng len(1)] obtain clic' where
    wr: "write_clicintctl ctx clic i (ucast w) = Inr clic'" and sc: "same_config ?c clic'"
    by blast
  have hw: "riscv_clic_hart_write ctx clic ?a (ucast w) 1 mode i = Inr clic'"
    using i wr by (simp add: riscv_clic_hart_write.simps Let_def a(3))
  have wr_eq: "riscv_clic_write ctx mode clic (CLIC_INTCTL_BASE + 4 * i + 3) (ucast w) 1 = Inr clic'"
    unfolding a(1)
    using riscv_clic_write_irq [of ctx env mode ?a clic "ucast w" 1] env gate addr len(2) vis hw
    by (simp only: a(2) a(1))
  have f: "clicintctl clic' = (clicintctl clic)[i := w]" "clicintattr clic' = clicintattr clic"
    "num_sources clic' = num_sources clic" "clic_size clic' = clic_size clic"
    "clicintctlbits clic' = clicintctlbits clic"
    using same_config_fields [OF sc] by simp_all
  have vis': "riscv_clic_check_visible clic' mode i = Inr True"
    using check_visible_same_config [OF sc, of mode i] vis
    by (simp add: check_visible_ctl_update)
  have hr: "riscv_clic_hart_read clic' ?a 1 mode i
      = Inr (ucast w OR (push_bit (8 - clicintctlbits clic) 1 - 1))"
    using i len(1) bits by (simp add: riscv_clic_hart_read.simps Let_def f ctl_padding a(3))
  have rd_eq: "riscv_clic_read ctx mode clic' (CLIC_INTCTL_BASE + 4 * i + 3) 1
      = Inr (ucast w OR (push_bit (8 - clicintctlbits clic) 1 - 1))"
    unfolding a(1)
    using riscv_clic_read_irq [of ctx env mode ?a clic' 1] env gate addr len(2) vis' hr
    by (simp only: a(2) a(1) f)
  from wr_eq rd_eq show ?thesis by blast
qed

text \<open>
  With \<open>clicintctlbits = 3\<close>: writing \<open>0x21\<close> reads back \<open>0x3F\<close>, writing \<open>0x00\<close> reads
  back \<open>0x1F\<close>, and writing \<open>0xF0\<close> reads back \<open>0xFF\<close>.
\<close>

theorem clicintctl_write_readback_witness:
  "(\<exists>clic'. riscv_clic_write (ctx_m True) 3 c3_state (0x1000 + 4 * 12 + 3) 0x21 1 = Inr clic' \<and>
       riscv_clic_read (ctx_m True) 3 clic' (0x1000 + 4 * 12 + 3) 1 = Inr 0x3F) \<and>
   (\<exists>clic'. riscv_clic_write (ctx_m True) 3 c3_state (0x1000 + 4 * 12 + 3) 0x00 1 = Inr clic' \<and>
       riscv_clic_read (ctx_m True) 3 clic' (0x1000 + 4 * 12 + 3) 1 = Inr 0x1F) \<and>
   (\<exists>clic'. riscv_clic_write (ctx_m True) 3 c3_state (0x1000 + 4 * 12 + 3) 0xF0 1 = Inr clic' \<and>
       riscv_clic_read (ctx_m True) 3 clic' (0x1000 + 4 * 12 + 3) 1 = Inr 0xFF)"
proof -
  have env: "cpu (ctx_m True) = Some \<lparr>priv = 3, mintstatus_uil = 0, mintstatus_sil = 0, mintstatus_mil = 0\<rparr>"
    by (simp add: ctx_m_def)
  have h: "3 \<le> priv \<lparr>priv = 3, mintstatus_uil = 0, mintstatus_sil = 0, mintstatus_mil = 0\<rparr>"
    "12 < num_sources c3_state" "arrays_ok c3_state" "active_in_range c3_state"
    "CLIC_INTCTL_BASE + 4 * 12 + 3 < clic_size c3_state" "clicintctlbits c3_state \<le> 8"
    "riscv_clic_check_visible c3_state 3 12 = Inr True"
    by (simp_all add: c3_state_def riscv_clic_realize_def arrays_ok_def active_in_range_def
        riscv_clic_check_visible_def)
  have bits: "clicintctlbits c3_state = 3" by (simp add: c3_state_def riscv_clic_realize_def)
  note t = clicintctl_write_readback [OF env h, unfolded bits]
  from t [of "0x21"] t [of "0x00"] t [of "0xF0"] show ?thesis by simp
qed

text \<open>
  The second scenario of the specification: with \<open>attr[12] = 0xC1\<close>, writing 1 to
  \<open>ip[12]\<close> changes nothing.
\<close>

theorem level_triggered_intip_write_ignored_witness:
  "riscv_clic_get_trigger_type c4_state 12 = POSITIVE_LEVEL \<and>
   riscv_clic_write (ctx_m True) 3 c4_state (0x1000 + 4 * 12) 1 1 = Inr c4_state"
proof -
  have env: "cpu (ctx_m True) = Some \<lparr>priv = 3, mintstatus_uil = 0, mintstatus_sil = 0, mintstatus_mil = 0\<rparr>"
    by (simp add: ctx_m_def)
  have trig: "riscv_clic_get_trigger_type c4_state 12 = POSITIVE_LEVEL"
    by (simp add: c4_state_def riscv_clic_realize_def riscv_clic_get_trigger_type_def)
  have h: "CLIC_INTCTL_BASE + 4 * 12 < clic_size c4_state" "12 < length (clicintattr c4_state)"
    "nmbits_in_range c4_state (nmbits c4_state)"
    by (simp_all add: c4_state_def riscv_clic_realize_def nmbits_in_range_def)
  from level_triggered_intip_write_ignored [OF env h, of 3 1 1] trig show ?thesis by simp
qed

text \<open>
  On an M-only CLIC a write carrying \<open>nmbits = 1\<close> changes nothing; on an M+S+U CLIC
  \<open>nmbits = 1\<close> is stored and \<open>nmbits = 3\<close> leaves the value 2 set at creation.
\<close>

theorem cliccfg_nmbits_validated_witness:
  "riscv_clic_write (ctx_m True) 3 (riscv_clic_realize 32 8 False False False) 0 0x18 4
     = Inr (riscv_clic_realize 32 8 False False False) \<and>
   map_sum id nmbits (riscv_clic_write (ctx_m True) 3 (riscv_clic_realize 32 8 True True False) 0 0x18 4)
     = Inr 1 \<and>
   map_sum id nmbits (riscv_clic_write (ctx_m True) 3 (riscv_clic_realize 32 8 True True False) 0 0x38 4)
     = Inr 2"
proof -
  have env: "cpu (ctx_m True) = Some \<lparr>priv = 3, mintstatus_uil = 0, mintstatus_sil = 0, mintstatus_mil = 0\<rparr>"
    by (simp add: ctx_m_def)
  have sz: "0 < clic_size (riscv_clic_realize 32 8 True True False)"
    by (simp add: riscv_clic_realize_def)
  from cliccfg_nmbits_validated [OF env sz, of 3 "0x18" 4]
       cliccfg_nmbits_validated [OF env sz, of 3 "0x38" 4]
  have "map_sum id nmbits (riscv_clic_write (ctx_m True) 3 (riscv_clic_realize 32 8 True True False) 0 0x18 4)
     = Inr 1 \<and>
   map_sum id nmbits (riscv_clic_write (ctx_m True) 3 (riscv_clic_realize 32 8 True True False) 0 0x38 4)
     = Inr 2"
    by (auto simp: cliccfg_nmbits_field_def nmbits_in_range_def riscv_clic_realize_def)
  moreover have "riscv_clic_write (ctx_m True) 3 (riscv_clic_realize 32 8 False False False) 0 0x18 4
     = Inr (riscv_clic_realize 32 8 False False False)"
    by (simp add: clic_eval_defs)
  ultimately show ?thesis by simp
qed

section \<open>Where the code departs from the specification\<close>

text \<open>
  Claim C5 fails on the code. (1) After interrupt 5 is enabled and \<open>0x80\<close> is written
  to its control byte, its entry in the active list still holds the old control byte.
  (2) Disabling it then fails the \<^verbatim>\<open>assert(result)\<close> after \<^verbatim>\<open>bsearch\<close>. (3) With
  interrupts 5, 6 and 7 enabled, disabling 7 leaves the list holding 7 and 6: the
  \<^verbatim>\<open>memmove\<close> moves \<open>sz\<close> bytes, not \<open>sz\<close> elements, so the disabled interrupt stays and
  the enabled interrupt 5 is dropped. (4) On an M+S CLIC, an S-mode interrupt enabled
  through the M view is entered with mode 3: the key takes the mode of the view, not of
  the interrupt.
\<close>

theorem active_list_not_maintained:
  "map_sum id c5_view
     (clic_run (riscv_clic_realize 8 8 False False False)
        (map (Pair (ctx_m True))
           [Mmio_write 3 (0x1000 + 4 * 5 + 1) 1 1, Mmio_write 3 (0x1000 + 4 * 5 + 3) 0x80 1]))
     = Inr ([1, 0, 0], [0x80, 0, 0], [\<lparr>intcfg = 0x300, irq = 5\<rparr>]) \<and>
   clic_run (riscv_clic_realize 8 8 False False False)
        (map (Pair (ctx_m True))
           [Mmio_write 3 (0x1000 + 4 * 5 + 1) 1 1, Mmio_write 3 (0x1000 + 4 * 5 + 3) 0x80 1,
            Mmio_write 3 (0x1000 + 4 * 5 + 1) 0 1])
     = Inl Assert_bsearch_result \<and>
   map_sum id c5_view
     (clic_run (riscv_clic_realize 8 8 False False False)
        (map (Pair (ctx_m True))
           [Mmio_write 3 (0x1000 + 4 * 5 + 1) 1 1, Mmio_write 3 (0x1000 + 4 * 6 + 1) 1 1,
            Mmio_write 3 (0x1000 + 4 * 7 + 1) 1 1, Mmio_write 3 (0x1000 + 4 * 7 + 1) 0 1]))
     = Inr ([1, 1, 0], [0, 0, 0], [\<lparr>intcfg = 0x300, irq = 7\<rparr>, \<lparr>intcfg = 0x300, irq = 6\<rparr>]) \<and>
   map_sum id (\<lambda>s. (intattr_mode (clicintattr s ! 5), active_list s))
     (clic_run (riscv_clic_realize 8 8 True False False)
        (map (Pair (ctx_m True))
           [Mmio_write 3 (0x1000 + 4 * 5 + 2) 0x43 1, Mmio_write 3 (0x1000 + 4 * 5 + 1) 1 1]))
     = Inr (1, [\<lparr>intcfg = 0x300, irq = 5\<rparr>])"
  by (simp add: c5_view_def clic_eval_defs bsearch_active.simps riscv_clic_active_compare_def
      remove_active_def memmove_bytes_def active_bytes_def)

lemmas uart_eval_defs = thead_uart_init_def thead_uart_write_def thead_uart_update_def
  thead_uart_fcr_update_def thead_uart_receive_def thead_uart_read_def Let_def

text \<open>
  Claim C6 fails on the code. With the FIFO enabled, the trigger level 4
  (\<open>rx_trigger = 4\<close>) and the receive interrupt enabled, the first byte delivered already
  sets IIR to \<open>INT_RX\<close> and raises the interrupt line; so do the second and third:
  \<^verbatim>\<open>thead_uart_receive\<close> never reads \<open>rx_trigger\<close>. The rest of the scenario holds:
  after the fourth byte IIR reads \<open>INT_RX\<close>, and after four reads of the receive buffer
  the FIFO is empty, \<open>lsr.DR\<close> is clear and IIR reads \<open>INT_NONE\<close>.
\<close>

theorem uart_rx_interrupt_before_threshold:
  "uart_view uart_fifo4 = (4, 0, INT_TX, 0, [0]) \<and>
   map_option uart_view (uart_deliver uart_fifo4 [0x61]) = Some (4, 1, INT_RX, 1, [0, 1]) \<and>
   map_option uart_view (uart_deliver uart_fifo4 [0x61, 0x62, 0x63])
     = Some (4, 3, INT_RX, 1, [0, 1, 1, 1]) \<and>
   map_option uart_view (uart_deliver uart_fifo4 [0x61, 0x62, 0x63, 0x64])
     = Some (4, 4, INT_RX, 1, [0, 1, 1, 1, 1]) \<and>
   (case uart_deliver uart_fifo4 [0x61, 0x62, 0x63, 0x64] of
      None \<Rightarrow> None
    | Some s \<Rightarrow> map_option (\<lambda>(vs, s1). (vs, uart_view s1))
                (uart_drain s (Suc (Suc (Suc (Suc 0))))))
     = Some ([0x61, 0x62, 0x63, 0x64], (4, 0, INT_NONE, 0, [0, 1, 1, 1, 1, 0, 0, 0, 0]))"
  by (simp add: uart_fifo4_def uart_view_def uart_eval_defs)

text \<open>
  Claim C8 fails on the code. For the edge-triggered interrupt 5: a four-byte write of
  \<open>0x00020100\<close> at byte 0 sets the pending byte (the whole value is tested, not its low
  byte) and raises the CPU line, where the four one-byte writes leave the pending byte 0
  and raise nothing; a two-byte write of \<open>0x80C3\<close> at byte 2 writes the attribute only,
  where the two one-byte writes also set the control byte to \<open>0x80\<close>; a two-byte read
  at byte 2 returns \<open>0xC3\<close>, the attribute alone, where the two one-byte reads return
  \<open>0xC3\<close> and \<open>0x80\<close>.
\<close>

theorem multi_byte_access_not_bytewise:
  "map_sum id c8_view (c8_run []) = Inr ((0, 0, 0xc2, 0), []) \<and>
   map_sum id c8_view (c8_run [Mmio_write 3 (0x1000 + 4 * 5) 0x00020100 4])
     = Inr ((1, 1, 0xc2, 0), [Level 1]) \<and>
   map_sum id c8_view
     (c8_run [Mmio_write 3 (0x1000 + 4 * 5) 0x00 1, Mmio_write 3 (0x1000 + 4 * 5 + 1) 0x01 1,
              Mmio_write 3 (0x1000 + 4 * 5 + 2) 0x02 1, Mmio_write 3 (0x1000 + 4 * 5 + 3) 0x00 1])
     = Inr ((0, 1, 0xc2, 0), []) \<and>
   map_sum id c8_view (c8_run [Mmio_write 3 (0x1000 + 4 * 5 + 2) 0x80c3 2])
     = Inr ((0, 0, 0xc3, 0), []) \<and>
   map_sum id c8_view
     (c8_run [Mmio_write 3 (0x1000 + 4 * 5 + 2) 0xc3 1, Mmio_write 3 (0x1000 + 4 * 5 + 3) 0x80 1])
     = Inr ((0, 0, 0xc3, 0x80), []) \<and>
   map_sum id (\<lambda>s. (c8_read (0x1000 + 4 * 5 + 2) 2 s,
                      c8_read (0x1000 + 4 * 5 + 2) 1 s, c8_read (0x1000 + 4 * 5 + 3) 1 s))
     (c8_run [Mmio_write 3 (0x1000 + 4 * 5 + 2) 0xc3 1, Mmio_write 3 (0x1000 + 4 * 5 + 3) 0x80 1])
     = Inr (Inr 0xc3, Inr 0xc3, Inr 0x80)"
  by (simp add: c8_run_def c8_read_def c8_view_def clic_eval_defs)

end
